theory Spec2Isabelle
  imports Main "HOL-Library.Sublist"
begin

section \<open>Values, snapshots and references of the document database client\<close>

text \<open>
  The library wraps the Firestore client. The client is not part of the repository, so
  everything the client decides is a parameter of the model; what is fixed here is only
  the shape of its interface, as the source uses it.

  A document's data is an object: a finite map from field names to values. The values
  are never inspected by the library, so numbers are kept as integers.
\<close>

datatype fvalue =
    FNull
  | FBool bool
  | FNum int
  | FStr string
  | FArr "fvalue list"
  | FMap "(string \<times> fvalue) list"

type_synonym DocumentData = "string \<rightharpoonup> fvalue"

text \<open>
  \<^verbatim>\<open>DocumentSnapshot\<close>: the source reads \<^verbatim>\<open>document.id\<close>, \<^verbatim>\<open>document.exists\<close> and
  \<^verbatim>\<open>document.data()\<close>, which is \<^verbatim>\<open>undefined\<close> (here \<open>None\<close>) for a missing document.
\<close>

record DocumentSnapshot =
  id_doc :: string
  exists :: bool
  data :: "DocumentData option"

text \<open>
  \<^verbatim>\<open>QuerySnapshot\<close>: the source reads \<^verbatim>\<open>docs\<close>, \<^verbatim>\<open>size\<close> and \<^verbatim>\<open>empty\<close>. The client defines
  the last two from the first (the number of documents, and whether there is none).
\<close>

record QuerySnapshot =
  docs :: "DocumentSnapshot list"

definition size_qs :: "QuerySnapshot \<Rightarrow> nat" where
  "size_qs documents = length (docs documents)"

definition empty_qs :: "QuerySnapshot \<Rightarrow> bool" where
  "empty_qs documents = (docs documents = [])"

datatype WhereFilterOp =
  Lt | Le | Eq | Ne | Ge | Gt | ArrayContains | In | NotIn | ArrayContainsAny

datatype OrderByDirection = Asc | Desc

text \<open>
  Collection references and queries are immutable descriptors on the client's side:
  every query method returns a new one. A query is therefore represented by the client
  calls that built it, with the arguments they were given. \<open>CollectionReference p\<close> is
  what \<^verbatim>\<open>firestore.collection(p)\<close> returns; the argument is \<open>None\<close> when the caller
  passes \<^verbatim>\<open>undefined\<close>. \<open>Where q f op v\<close> is what \<^verbatim>\<open>q.where(f, op, v)\<close> returns, and so on.
\<close>

datatype Query =
    CollectionReference "string option"
  | Where Query string WhereFilterOp fvalue
  | OrderBy Query string OrderByDirection
  | Offset Query int
  | Limit Query int
  | StartAt Query DocumentSnapshot
  | StartAfter Query DocumentSnapshot
  | EndAt Query DocumentSnapshot
  | EndBefore Query DocumentSnapshot

text \<open>\<open>Doc c i\<close> is what \<^verbatim>\<open>c.doc(i)\<close> returns.\<close>

datatype DocumentReference = Doc Query string

text \<open>The collection a query was built from.\<close>

fun base :: "Query \<Rightarrow> Query" where
  "base (CollectionReference p) = CollectionReference p"
| "base (Where q f operator v) = base q"
| "base (OrderBy q f d) = base q"
| "base (Offset q n) = base q"
| "base (Limit q n) = base q"
| "base (StartAt q s) = base q"
| "base (StartAfter q s) = base q"
| "base (EndAt q s) = base q"
| "base (EndBefore q s) = base q"

section \<open>Client calls, their log, and the client as a parameter\<close>

text \<open>
  \<open>'s\<close> is the state of everything outside the library (the database, the client, the
  caller's own variables), \<open>'e\<close> the values the client throws or rejects with, \<open>'t\<close> the
  client's transaction objects and \<open>'r\<close> the result of a transaction callback.

  A transaction callback is a function the client calls: it throws (\<open>Inl\<close>) or returns a
  promise. What it returns is typed \<^verbatim>\<open>Promise<R>\<close>, which a promise of another library
  satisfies as well as a native one; the two are told apart here because a client can tell
  them apart (\<^verbatim>\<open>instanceof Promise\<close>). A promise is given by how it settles: it resolves
  with a value (\<open>Inr\<close>) or rejects (\<open>Inl\<close>).

  A call that builds a reference or a query is identified by what it builds:
  \<open>Build (Where q f op v)\<close> is the invocation \<^verbatim>\<open>q.where(f, op, v)\<close>, and
  \<open>BuildDoc (Doc c i)\<close> is \<^verbatim>\<open>c.doc(i)\<close>.
\<close>

datatype ('e, 'r) promise =
    Native "'e + 'r"
  | Foreign "'e + 'r"

type_synonym ('s, 'e, 't, 'r) callback = "'t \<Rightarrow> 's \<Rightarrow> ('e + ('e, 'r) promise) \<times> 's"

datatype ('s, 'e, 't, 'r) call =
    Build Query
  | BuildDoc DocumentReference
  | Set DocumentReference DocumentData
  | Update DocumentReference DocumentData
  | Delete DocumentReference
  | Get DocumentReference
  | QueryGet Query
  | OnSnapshot Query "QuerySnapshot \<Rightarrow> 's \<Rightarrow> 's" "('e \<Rightarrow> 's \<Rightarrow> 's) option"
  | RunTransaction "'t \<Rightarrow> 's \<Rightarrow> ('e + ('e, 'r) promise) \<times> 's"

text \<open>A log entry is a call with its outcome: \<open>None\<close> when it returned, \<open>Some e\<close> when it
  threw or rejected with \<open>e\<close>.\<close>

type_synonym ('s, 'e, 't, 'r) log = "(('s, 'e, 't, 'r) call \<times> 'e option) list"

record ('s, 'e, 't, 'r) world =
  ext :: 's
  trace :: "('s, 'e, 't, 'r) log"

text \<open>A computation of the library on the world: it returns a value (\<open>Inr\<close>) or throws
  (\<open>Inl\<close>), and leaves a new world.\<close>

type_synonym ('a, 's, 'e, 't, 'r) io =
  "('s, 'e, 't, 'r) world \<Rightarrow> ('e + 'a) \<times> ('s, 'e, 't, 'r) world"

text \<open>
  The client. \<open>validate\<close> is its synchronous argument check on a building call;
  the other fields are its asynchronous methods, which read and change the outside state
  and resolve (\<open>Inr\<close>) or reject (\<open>Inl\<close>).
\<close>

record ('s, 'e, 't, 'r) Firestore =
  validate :: "('s, 'e, 't, 'r) call \<Rightarrow> 'e option"
  documentSet :: "DocumentReference \<Rightarrow> DocumentData \<Rightarrow> 's \<Rightarrow> ('e + unit) \<times> 's"
  documentUpdate :: "DocumentReference \<Rightarrow> DocumentData \<Rightarrow> 's \<Rightarrow> ('e + unit) \<times> 's"
  documentDelete :: "DocumentReference \<Rightarrow> 's \<Rightarrow> ('e + unit) \<times> 's"
  documentGet :: "DocumentReference \<Rightarrow> 's \<Rightarrow> ('e + DocumentSnapshot) \<times> 's"
  queryGet :: "Query \<Rightarrow> 's \<Rightarrow> ('e + QuerySnapshot) \<times> 's"
  queryOnSnapshot ::
    "Query \<Rightarrow> (QuerySnapshot \<Rightarrow> 's \<Rightarrow> 's) \<Rightarrow> ('e \<Rightarrow> 's \<Rightarrow> 's) option \<Rightarrow> 's \<Rightarrow> ('e + ('s \<Rightarrow> 's)) \<times> 's"
  transact :: "('s, 'e, 't, 'r) callback \<Rightarrow> 's \<Rightarrow> ('e + 'r) \<times> 's"

text \<open>The global \<^verbatim>\<open>crypto\<close> object: \<^verbatim>\<open>crypto.randomUUID()\<close> draws from the outside state.\<close>

record 's Crypto =
  uuid :: "'s \<Rightarrow> string \<times> 's"

subsection \<open>Sequencing with exceptions\<close>

text \<open>
  A computation takes a state and returns a value (\<open>Inr\<close>) or the thrown value (\<open>Inl\<close>)
  with the new state. \<open>andThen m f\<close> is \<^verbatim>\<open>x = await m; f(x)\<close> (or \<^verbatim>\<open>x = m; f(x)\<close> for a
  synchronous call): a throw or rejection of \<open>m\<close> ends the computation.
\<close>

definition return :: "'a \<Rightarrow> 'st \<Rightarrow> ('e + 'a) \<times> 'st" where
  "return x st = (Inr x, st)"

definition andThen ::
  "('st \<Rightarrow> ('e + 'a) \<times> 'st) \<Rightarrow> ('a \<Rightarrow> 'st \<Rightarrow> ('e + 'b) \<times> 'st) \<Rightarrow> 'st \<Rightarrow> ('e + 'b) \<times> 'st" where
  "andThen m f st = (case m st of (Inl e, st') \<Rightarrow> (Inl e, st') | (Inr x, st') \<Rightarrow> f x st')"

text \<open>
  \<^verbatim>\<open>await p\<close> continues with the value \<open>p\<close> resolves with, or throws what it rejects
  with, whether \<open>p\<close> is a native promise or another thenable.
\<close>

definition awaiting :: "('e, 'r) promise \<Rightarrow> 'st \<Rightarrow> ('e + 'r) \<times> 'st" where
  "awaiting p st = (case p of Native x \<Rightarrow> (x, st) | Foreign x \<Rightarrow> (x, st))"

text \<open>
  A call of an \<^verbatim>\<open>async\<close> function does not throw: it returns a native promise, which
  resolves with what the body returns and rejects with what the body throws.
\<close>

definition async :: "('st \<Rightarrow> ('e + 'r) \<times> 'st) \<Rightarrow> 'st \<Rightarrow> ('e + ('e, 'r) promise) \<times> 'st" where
  "async body st = (case body st of (x, st') \<Rightarrow> (Inr (Native x), st'))"

subsection \<open>The client's methods, logged\<close>

definition outcome :: "'e + 'a \<Rightarrow> 'e option" where
  "outcome r = (case r of Inl e \<Rightarrow> Some e | Inr x \<Rightarrow> None)"

definition invoke ::
  "('s, 'e, 't, 'r) call \<Rightarrow> ('s \<Rightarrow> ('e + 'a) \<times> 's) \<Rightarrow> ('a, 's, 'e, 't, 'r) io" where
  "invoke c respond w =
     (case respond (ext w) of
        (r, s') \<Rightarrow> (r, \<lparr>ext = s', trace = trace w @ [(c, outcome r)]\<rparr>))"

definition checked :: "('s, 'e, 't, 'r) Firestore \<Rightarrow> ('s, 'e, 't, 'r) call \<Rightarrow> 'a \<Rightarrow> 's \<Rightarrow> ('e + 'a) \<times> 's" where
  "checked cl c x s = (case validate cl c of Some e \<Rightarrow> (Inl e, s) | None \<Rightarrow> (Inr x, s))"

definition build ::
  "('s, 'e, 't, 'r) Firestore \<Rightarrow> Query \<Rightarrow> (Query, 's, 'e, 't, 'r) io" where
  "build cl q = invoke (Build q) (checked cl (Build q) q)"

definition Firestore_collection ::
  "('s, 'e, 't, 'r) Firestore \<Rightarrow> string option \<Rightarrow> (Query, 's, 'e, 't, 'r) io" where
  "Firestore_collection cl collectionPath = build cl (CollectionReference collectionPath)"

definition Firestore_runTransaction ::
  "('s, 'e, 't, 'r) Firestore \<Rightarrow> ('s, 'e, 't, 'r) callback \<Rightarrow> ('r, 's, 'e, 't, 'r) io" where
  "Firestore_runTransaction cl updateFunction = invoke (RunTransaction updateFunction) (transact cl updateFunction)"

definition CollectionReference_doc ::
  "('s, 'e, 't, 'r) Firestore \<Rightarrow> Query \<Rightarrow> string \<Rightarrow> (DocumentReference, 's, 'e, 't, 'r) io" where
  "CollectionReference_doc cl c documentPath =
     invoke (BuildDoc (Doc c documentPath)) (checked cl (BuildDoc (Doc c documentPath)) (Doc c documentPath))"

definition DocumentReference_set ::
  "('s, 'e, 't, 'r) Firestore \<Rightarrow> DocumentReference \<Rightarrow> DocumentData \<Rightarrow> (unit, 's, 'e, 't, 'r) io" where
  "DocumentReference_set cl reference d = invoke (Set reference d) (documentSet cl reference d)"

definition DocumentReference_update ::
  "('s, 'e, 't, 'r) Firestore \<Rightarrow> DocumentReference \<Rightarrow> DocumentData \<Rightarrow> (unit, 's, 'e, 't, 'r) io" where
  "DocumentReference_update cl reference d = invoke (Update reference d) (documentUpdate cl reference d)"

definition DocumentReference_delete ::
  "('s, 'e, 't, 'r) Firestore \<Rightarrow> DocumentReference \<Rightarrow> (unit, 's, 'e, 't, 'r) io" where
  "DocumentReference_delete cl reference = invoke (Delete reference) (documentDelete cl reference)"

definition DocumentReference_get ::
  "('s, 'e, 't, 'r) Firestore \<Rightarrow> DocumentReference \<Rightarrow> (DocumentSnapshot, 's, 'e, 't, 'r) io" where
  "DocumentReference_get cl reference = invoke (Get reference) (documentGet cl reference)"

definition Query_where ::
  "('s, 'e, 't, 'r) Firestore \<Rightarrow> Query \<Rightarrow> string \<Rightarrow> WhereFilterOp \<Rightarrow> fvalue \<Rightarrow> (Query, 's, 'e, 't, 'r) io" where
  "Query_where cl q fieldPath opStr v = build cl (Where q fieldPath opStr v)"

definition Query_orderBy ::
  "('s, 'e, 't, 'r) Firestore \<Rightarrow> Query \<Rightarrow> string \<Rightarrow> OrderByDirection \<Rightarrow> (Query, 's, 'e, 't, 'r) io" where
  "Query_orderBy cl q fieldPath directionStr = build cl (OrderBy q fieldPath directionStr)"

definition Query_offset ::
  "('s, 'e, 't, 'r) Firestore \<Rightarrow> Query \<Rightarrow> int \<Rightarrow> (Query, 's, 'e, 't, 'r) io" where
  "Query_offset cl q n = build cl (Offset q n)"

definition Query_limit ::
  "('s, 'e, 't, 'r) Firestore \<Rightarrow> Query \<Rightarrow> int \<Rightarrow> (Query, 's, 'e, 't, 'r) io" where
  "Query_limit cl q n = build cl (Limit q n)"

definition Query_startAt ::
  "('s, 'e, 't, 'r) Firestore \<Rightarrow> Query \<Rightarrow> DocumentSnapshot \<Rightarrow> (Query, 's, 'e, 't, 'r) io" where
  "Query_startAt cl q snapshot = build cl (StartAt q snapshot)"

definition Query_startAfter ::
  "('s, 'e, 't, 'r) Firestore \<Rightarrow> Query \<Rightarrow> DocumentSnapshot \<Rightarrow> (Query, 's, 'e, 't, 'r) io" where
  "Query_startAfter cl q snapshot = build cl (StartAfter q snapshot)"

definition Query_endAt ::
  "('s, 'e, 't, 'r) Firestore \<Rightarrow> Query \<Rightarrow> DocumentSnapshot \<Rightarrow> (Query, 's, 'e, 't, 'r) io" where
  "Query_endAt cl q snapshot = build cl (EndAt q snapshot)"

definition Query_endBefore ::
  "('s, 'e, 't, 'r) Firestore \<Rightarrow> Query \<Rightarrow> DocumentSnapshot \<Rightarrow> (Query, 's, 'e, 't, 'r) io" where
  "Query_endBefore cl q snapshot = build cl (EndBefore q snapshot)"

definition Query_get ::
  "('s, 'e, 't, 'r) Firestore \<Rightarrow> Query \<Rightarrow> (QuerySnapshot, 's, 'e, 't, 'r) io" where
  "Query_get cl q = invoke (QueryGet q) (queryGet cl q)"

definition Query_onSnapshot ::
  "('s, 'e, 't, 'r) Firestore \<Rightarrow> Query \<Rightarrow> (QuerySnapshot \<Rightarrow> 's \<Rightarrow> 's) \<Rightarrow> ('e \<Rightarrow> 's \<Rightarrow> 's) option
    \<Rightarrow> (('s \<Rightarrow> 's), 's, 'e, 't, 'r) io" where
  "Query_onSnapshot cl q onNext onError = invoke (OnSnapshot q onNext onError) (queryOnSnapshot cl q onNext onError)"

definition randomUUID ::
  "'s Crypto \<Rightarrow> (string, 's, 'e, 't, 'r) io" where
  "randomUUID crypto w = (case uuid crypto (ext w) of (u, s') \<Rightarrow> (Inr u, w\<lparr>ext := s'\<rparr>))"

section \<open>types.ts\<close>

text \<open>
  \<^verbatim>\<open>return { documentId: document.id, ...document.data() }\<close>: an object literal takes
  its properties from left to right, a later property of the same name replacing the
  earlier one, and spreading \<^verbatim>\<open>undefined\<close> adds nothing.
\<close>

definition toDocumentWithId :: "DocumentSnapshot \<Rightarrow> DocumentData" where
  "toDocumentWithId document =
     [''documentId'' \<mapsto> FStr (id_doc document)]
       ++ (case data document of None \<Rightarrow> Map.empty | Some d \<Rightarrow> d)"

section \<open>decorators.ts\<close>

text \<open>
  The metadata registry of \<^verbatim>\<open>reflect-metadata\<close>: a value per target and key. \<open>'c\<close> is
  the type of class constructors and \<open>'k\<close> the type of metadata keys. The key
  \<^verbatim>\<open>FIRESTORE_COLLECTION_NAME_KEY\<close> comes from a module that is not among the sources; it
  is the parameter \<open>key\<close> below.

  \<^verbatim>\<open>Reflect.getMetadata\<close> returns the target's own metadata when there is one, and otherwise
  walks the prototype chain of the target. The chain is the parameter \<open>supers\<close>: the
  constructors a class extends, the nearest first.
\<close>

type_synonym ('c, 'k) metadata = "('c \<times> 'k) \<rightharpoonup> string"

definition defineMetadata :: "'k \<Rightarrow> string \<Rightarrow> 'c \<Rightarrow> ('c, 'k) metadata \<Rightarrow> ('c, 'k) metadata" where
  "defineMetadata metadataKey metadataValue target md = md((target, metadataKey) \<mapsto> metadataValue)"

fun ordinaryGetMetadata :: "'k \<Rightarrow> 'c list \<Rightarrow> ('c, 'k) metadata \<Rightarrow> string option" where
  "ordinaryGetMetadata metadataKey [] md = None"
| "ordinaryGetMetadata metadataKey (target # parents) md =
     (case md (target, metadataKey) of
        Some v \<Rightarrow> Some v
      | None \<Rightarrow> ordinaryGetMetadata metadataKey parents md)"

definition getMetadata ::
  "('c \<Rightarrow> 'c list) \<Rightarrow> 'k \<Rightarrow> 'c \<Rightarrow> ('c, 'k) metadata \<Rightarrow> string option" where
  "getMetadata supers metadataKey target md =
     ordinaryGetMetadata metadataKey (target # supers target) md"

definition FirestoreDocument :: "'k \<Rightarrow> string \<Rightarrow> 'c \<Rightarrow> ('c, 'k) metadata \<Rightarrow> ('c, 'k) metadata" where
  "FirestoreDocument key collectionName constructor md =
     defineMetadata key collectionName constructor md"

section \<open>firestore.query-builder.ts\<close>

record FirestoreQueryBuilder =
  reference :: Query
  query :: Query

definition FirestoreQueryBuilder_constructor :: "Query \<Rightarrow> FirestoreQueryBuilder" where
  "FirestoreQueryBuilder_constructor r = \<lparr>reference = r, query = r\<rparr>"

text \<open>
  A method of the builder runs on the builder object and the world: it can assign
  \<^verbatim>\<open>this.query\<close> and call the client.
\<close>

type_synonym ('a, 's, 'e, 't, 'r) builder_io =
  "FirestoreQueryBuilder \<times> ('s, 'e, 't, 'r) world
    \<Rightarrow> ('e + 'a) \<times> (FirestoreQueryBuilder \<times> ('s, 'e, 't, 'r) world)"

definition get_this :: "(FirestoreQueryBuilder, 's, 'e, 't, 'r) builder_io" where
  "get_this st = (Inr (fst st), st)"

definition set_query :: "Query \<Rightarrow> (unit, 's, 'e, 't, 'r) builder_io" where
  "set_query q st = (Inr (), ((fst st)\<lparr>query := q\<rparr>, snd st))"

definition on_world :: "('a, 's, 'e, 't, 'r) io \<Rightarrow> ('a, 's, 'e, 't, 'r) builder_io" where
  "on_world m st = (case m (snd st) of (r, w') \<Rightarrow> (r, (fst st, w')))"

definition where_qb ::
  "('s, 'e, 't, 'r) Firestore \<Rightarrow> string \<Rightarrow> WhereFilterOp \<Rightarrow> fvalue
    \<Rightarrow> (FirestoreQueryBuilder, 's, 'e, 't, 'r) builder_io" where
  "where_qb cl field operator v =
     andThen get_this (\<lambda>this.
     andThen (on_world (Query_where cl (query this) field operator v)) (\<lambda>q.
     andThen (set_query q) (\<lambda>_.
     get_this)))"

text \<open>\<^verbatim>\<open>direction\<close> is optional and defaults to \<^verbatim>\<open>"asc"\<close>.\<close>

definition orderBy ::
  "('s, 'e, 't, 'r) Firestore \<Rightarrow> string \<Rightarrow> OrderByDirection option
    \<Rightarrow> (FirestoreQueryBuilder, 's, 'e, 't, 'r) builder_io" where
  "orderBy cl field direction =
     andThen get_this (\<lambda>this.
     andThen (on_world (Query_orderBy cl (query this) field
                (case direction of None \<Rightarrow> Asc | Some d \<Rightarrow> d))) (\<lambda>q.
     andThen (set_query q) (\<lambda>_.
     get_this)))"

definition offset ::
  "('s, 'e, 't, 'r) Firestore \<Rightarrow> int \<Rightarrow> (FirestoreQueryBuilder, 's, 'e, 't, 'r) builder_io" where
  "offset cl n =
     andThen get_this (\<lambda>this.
     andThen (on_world (Query_offset cl (query this) n)) (\<lambda>q.
     andThen (set_query q) (\<lambda>_.
     get_this)))"

definition limit ::
  "('s, 'e, 't, 'r) Firestore \<Rightarrow> int \<Rightarrow> (FirestoreQueryBuilder, 's, 'e, 't, 'r) builder_io" where
  "limit cl n =
     andThen get_this (\<lambda>this.
     andThen (on_world (Query_limit cl (query this) n)) (\<lambda>q.
     andThen (set_query q) (\<lambda>_.
     get_this)))"

definition startAt ::
  "('s, 'e, 't, 'r) Firestore \<Rightarrow> DocumentSnapshot \<Rightarrow> (FirestoreQueryBuilder, 's, 'e, 't, 'r) builder_io" where
  "startAt cl snapshot =
     andThen get_this (\<lambda>this.
     andThen (on_world (Query_startAt cl (query this) snapshot)) (\<lambda>q.
     andThen (set_query q) (\<lambda>_.
     get_this)))"

definition startAfter ::
  "('s, 'e, 't, 'r) Firestore \<Rightarrow> DocumentSnapshot \<Rightarrow> (FirestoreQueryBuilder, 's, 'e, 't, 'r) builder_io" where
  "startAfter cl snapshot =
     andThen get_this (\<lambda>this.
     andThen (on_world (Query_startAfter cl (query this) snapshot)) (\<lambda>q.
     andThen (set_query q) (\<lambda>_.
     get_this)))"

definition endAt ::
  "('s, 'e, 't, 'r) Firestore \<Rightarrow> DocumentSnapshot \<Rightarrow> (FirestoreQueryBuilder, 's, 'e, 't, 'r) builder_io" where
  "endAt cl snapshot =
     andThen get_this (\<lambda>this.
     andThen (on_world (Query_endAt cl (query this) snapshot)) (\<lambda>q.
     andThen (set_query q) (\<lambda>_.
     get_this)))"

definition endBefore ::
  "('s, 'e, 't, 'r) Firestore \<Rightarrow> DocumentSnapshot \<Rightarrow> (FirestoreQueryBuilder, 's, 'e, 't, 'r) builder_io" where
  "endBefore cl snapshot =
     andThen get_this (\<lambda>this.
     andThen (on_world (Query_endBefore cl (query this) snapshot)) (\<lambda>q.
     andThen (set_query q) (\<lambda>_.
     get_this)))"

definition clear :: "(FirestoreQueryBuilder, 's, 'e, 't, 'r) builder_io" where
  "clear =
     andThen get_this (\<lambda>this.
     andThen (set_query (reference this)) (\<lambda>_.
     get_this))"

definition onSnapshot ::
  "('s, 'e, 't, 'r) Firestore \<Rightarrow> (QuerySnapshot \<Rightarrow> 's \<Rightarrow> 's) \<Rightarrow> ('e \<Rightarrow> 's \<Rightarrow> 's) option
    \<Rightarrow> ('s \<Rightarrow> 's, 's, 'e, 't, 'r) builder_io" where
  "onSnapshot cl onNext onError =
     andThen get_this (\<lambda>this.
     on_world (Query_onSnapshot cl (query this) onNext onError))"

definition getOne ::
  "('s, 'e, 't, 'r) Firestore \<Rightarrow> (DocumentData option, 's, 'e, 't, 'r) builder_io" where
  "getOne cl =
     andThen get_this (\<lambda>this.
     andThen (on_world (Query_limit cl (query this) 1)) (\<lambda>limited.
     andThen (on_world (Query_get cl limited)) (\<lambda>documents.
     return (if \<not> empty_qs documents
             then Some (toDocumentWithId (docs documents ! 0))
             else None))))"

definition getMany ::
  "('s, 'e, 't, 'r) Firestore \<Rightarrow> (DocumentData list, 's, 'e, 't, 'r) builder_io" where
  "getMany cl =
     andThen get_this (\<lambda>this.
     andThen (on_world (Query_get cl (query this))) (\<lambda>documents.
     return (map toDocumentWithId (docs documents))))"

record ManyAndCount =
  count_of :: nat
  data_of :: "DocumentData list"

definition getManyAndCount ::
  "('s, 'e, 't, 'r) Firestore \<Rightarrow> (ManyAndCount, 's, 'e, 't, 'r) builder_io" where
  "getManyAndCount cl =
     andThen get_this (\<lambda>this.
     andThen (on_world (Query_get cl (query this))) (\<lambda>documents.
     return \<lparr>count_of = size_qs documents,
             data_of = map toDocumentWithId (docs documents)\<rparr>))"

definition count ::
  "('s, 'e, 't, 'r) Firestore \<Rightarrow> (nat, 's, 'e, 't, 'r) builder_io" where
  "count cl =
     andThen get_this (\<lambda>this.
     andThen (on_world (Query_get cl (query this))) (\<lambda>documents.
     return (size_qs documents)))"

section \<open>repository-base.ts\<close>

record ('s, 'e, 't, 'r) FirestoreRepositoryBase =
  firestore :: "('s, 'e, 't, 'r) Firestore"
  collection :: Query

definition FirestoreRepositoryBase_constructor ::
  "('c \<Rightarrow> 'c list) \<Rightarrow> 'k \<Rightarrow> ('c, 'k) metadata \<Rightarrow> ('s, 'e, 't, 'r) Firestore \<Rightarrow> 'c
    \<Rightarrow> (('s, 'e, 't, 'r) FirestoreRepositoryBase, 's, 'e, 't, 'r) io" where
  "FirestoreRepositoryBase_constructor supers key md fs entityType =
     andThen (return (getMetadata supers key entityType md)) (\<lambda>collectionName.
     andThen (Firestore_collection fs collectionName) (\<lambda>c.
     return \<lparr>firestore = fs, collection = c\<rparr>))"

definition createQueryBuilder :: "('s, 'e, 't, 'r) FirestoreRepositoryBase \<Rightarrow> FirestoreQueryBuilder" where
  "createQueryBuilder repo = FirestoreQueryBuilder_constructor (collection repo)"

text \<open>
  \<^verbatim>\<open>documentId = documentId || crypto.randomUUID()\<close>: the identifier is drawn when the
  argument is missing or is the empty string (both are falsy).
\<close>

definition create ::
  "'s Crypto \<Rightarrow> ('s, 'e, 't, 'r) FirestoreRepositoryBase \<Rightarrow> DocumentData \<Rightarrow> string option
    \<Rightarrow> (DocumentData, 's, 'e, 't, 'r) io" where
  "create crypto repo d documentId =
     andThen (case documentId of
                None \<Rightarrow> randomUUID crypto
              | Some i \<Rightarrow> if i \<noteq> [] then return i else randomUUID crypto) (\<lambda>documentId.
     andThen (CollectionReference_doc (firestore repo) (collection repo) documentId) (\<lambda>reference.
     andThen (DocumentReference_set (firestore repo) reference d) (\<lambda>_.
     andThen (DocumentReference_get (firestore repo) reference) (\<lambda>document.
     return (toDocumentWithId document)))))"

definition update ::
  "('s, 'e, 't, 'r) FirestoreRepositoryBase \<Rightarrow> string \<Rightarrow> DocumentData
    \<Rightarrow> (DocumentData, 's, 'e, 't, 'r) io" where
  "update repo documentId d =
     andThen (CollectionReference_doc (firestore repo) (collection repo) documentId) (\<lambda>reference.
     andThen (DocumentReference_update (firestore repo) reference d) (\<lambda>_.
     andThen (DocumentReference_get (firestore repo) reference) (\<lambda>document.
     return (toDocumentWithId document))))"

definition findOneById ::
  "('s, 'e, 't, 'r) FirestoreRepositoryBase \<Rightarrow> string \<Rightarrow> (DocumentData option, 's, 'e, 't, 'r) io" where
  "findOneById repo documentId =
     andThen (CollectionReference_doc (firestore repo) (collection repo) documentId) (\<lambda>reference.
     andThen (DocumentReference_get (firestore repo) reference) (\<lambda>document.
     return (if exists document then Some (toDocumentWithId document) else None)))"

definition deleteById ::
  "('s, 'e, 't, 'r) FirestoreRepositoryBase \<Rightarrow> string \<Rightarrow> (unit, 's, 'e, 't, 'r) io" where
  "deleteById repo documentId =
     andThen (CollectionReference_doc (firestore repo) (collection repo) documentId) (\<lambda>reference.
     andThen (DocumentReference_delete (firestore repo) reference) (\<lambda>_.
     return ()))"

definition existsById ::
  "('s, 'e, 't, 'r) FirestoreRepositoryBase \<Rightarrow> string \<Rightarrow> (bool, 's, 'e, 't, 'r) io" where
  "existsById repo documentId =
     andThen (CollectionReference_doc (firestore repo) (collection repo) documentId) (\<lambda>reference.
     andThen (DocumentReference_get (firestore repo) reference) (\<lambda>document.
     return (exists document)))"

text \<open>
  The callback handed to the client is not \<open>execute\<close> but a new function,
  \<^verbatim>\<open>async (transaction) => { return await execute(transaction); }\<close>: it calls
  \<open>execute\<close>, awaits what \<open>execute\<close> returned and returns the value.
\<close>

definition runTransaction ::
  "('s, 'e, 't, 'r) FirestoreRepositoryBase \<Rightarrow> ('s, 'e, 't, 'r) callback \<Rightarrow> ('r, 's, 'e, 't, 'r) io" where
  "runTransaction repo execute =
     Firestore_runTransaction (firestore repo)
       (\<lambda>transaction. async
          (andThen (execute transaction) (\<lambda>p.
           andThen (awaiting p) (\<lambda>x.
           return x))))"

section \<open>Sequences of chaining calls\<close>

text \<open>The chainable methods of the builder, as a caller may invoke them.\<close>

datatype chain_call =
    WhereCall string WhereFilterOp fvalue
  | OrderByCall string "OrderByDirection option"
  | OffsetCall int
  | LimitCall int
  | StartAtCall DocumentSnapshot
  | StartAfterCall DocumentSnapshot
  | EndAtCall DocumentSnapshot
  | EndBeforeCall DocumentSnapshot
  | ClearCall

fun chain ::
  "('s, 'e, 't, 'r) Firestore \<Rightarrow> chain_call \<Rightarrow> (FirestoreQueryBuilder, 's, 'e, 't, 'r) builder_io" where
  "chain cl (WhereCall field operator v) = where_qb cl field operator v"
| "chain cl (OrderByCall field direction) = orderBy cl field direction"
| "chain cl (OffsetCall n) = offset cl n"
| "chain cl (LimitCall n) = limit cl n"
| "chain cl (StartAtCall snapshot) = startAt cl snapshot"
| "chain cl (StartAfterCall snapshot) = startAfter cl snapshot"
| "chain cl (EndAtCall snapshot) = endAt cl snapshot"
| "chain cl (EndBeforeCall snapshot) = endBefore cl snapshot"
| "chain cl ClearCall = clear"

text \<open>
  The builder and the world after a sequence of chaining calls. A call that throws leaves
  the builder as it was; the caller may catch the exception and go on, so the sequence
  continues from the state the call left.
\<close>

fun chain_all ::
  "('s, 'e, 't, 'r) Firestore \<Rightarrow> chain_call list
    \<Rightarrow> FirestoreQueryBuilder \<times> ('s, 'e, 't, 'r) world
    \<Rightarrow> FirestoreQueryBuilder \<times> ('s, 'e, 't, 'r) world" where
  "chain_all cl [] st = st"
| "chain_all cl (c # cs) st = chain_all cl cs (snd (chain cl c st))"

section \<open>Observing the client calls of a computation\<close>

definition trace_qb :: "FirestoreQueryBuilder \<times> ('s, 'e, 't, 'r) world \<Rightarrow> ('s, 'e, 't, 'r) log" where
  "trace_qb st = trace (snd st)"

text \<open>The log entries a computation adds, \<open>tr\<close> reading the log off the state.\<close>

definition performed ::
  "('st \<Rightarrow> ('s, 'e, 't, 'r) log) \<Rightarrow> ('st \<Rightarrow> ('e + 'a) \<times> 'st) \<Rightarrow> 'st \<Rightarrow> ('s, 'e, 't, 'r) log" where
  "performed tr m st = drop (length (tr st)) (tr (snd (m st)))"

definition succeeded :: "('s, 'e, 't, 'r) call list \<Rightarrow> ('s, 'e, 't, 'r) log" where
  "succeeded cs = map (\<lambda>c. (c, None)) cs"

text \<open>
  \<open>conducts tr m st cs\<close>: from \<open>st\<close>, the computation \<open>m\<close> only appends to the log, and
  what it appends follows the script \<open>cs\<close>: when \<open>m\<close> returns, every call of \<open>cs\<close> was made
  in order and returned; when \<open>m\<close> throws \<open>e\<close>, the calls of \<open>cs\<close> before some position
  returned, the call at that position threw \<open>e\<close>, and no further call was made.
\<close>

definition conducts ::
  "('st \<Rightarrow> ('s, 'e, 't, 'r) log) \<Rightarrow> ('st \<Rightarrow> ('e + 'a) \<times> 'st) \<Rightarrow> 'st
    \<Rightarrow> ('s, 'e, 't, 'r) call list \<Rightarrow> bool" where
  "conducts tr m st cs =
     (tr (snd (m st)) = tr st @ performed tr m st \<and>
      (case fst (m st) of
         Inr x \<Rightarrow> performed tr m st = succeeded cs
       | Inl e \<Rightarrow> (\<exists>k < length cs. performed tr m st = succeeded (take k cs) @ [(cs ! k, Some e)])))"

text \<open>
  \<open>chains_with m st q'\<close>: run from \<open>st\<close>, the builder method \<open>m\<close> makes the one client
  call that builds \<open>q'\<close>; when the call returns, \<open>q'\<close> becomes the builder's query and the
  method returns the builder; when it throws, the builder is as before.
\<close>

definition chains_with ::
  "(FirestoreQueryBuilder, 's, 'e, 't, 'r) builder_io
    \<Rightarrow> FirestoreQueryBuilder \<times> ('s, 'e, 't, 'r) world \<Rightarrow> Query \<Rightarrow> bool" where
  "chains_with m st q' =
     (conducts trace_qb m st [Build q'] \<and>
      (case fst (m st) of
         Inr b \<Rightarrow> b = (fst st)\<lparr>query := q'\<rparr> \<and> fst (snd (m st)) = b
       | Inl e \<Rightarrow> fst (snd (m st)) = fst st))"

text \<open>The errors of the client calls in a log.\<close>

definition rejections :: "('s, 'e, 't, 'r) log \<Rightarrow> 'e list" where
  "rejections l = concat (map (\<lambda>ev. case snd ev of None \<Rightarrow> [] | Some e \<Rightarrow> [e]) l)"

text \<open>
  The client reads the argument of \<^verbatim>\<open>collection\<close> and of \<^verbatim>\<open>doc\<close> as a path, whose
  segments are separated by \<^verbatim>\<open>/\<close>; the path given to \<^verbatim>\<open>doc\<close> is relative to the
  collection. So \<^verbatim>\<open>users.doc("u1")\<close> is the document \<^verbatim>\<open>u1\<close> of the collection \<^verbatim>\<open>users\<close>,
  and \<^verbatim>\<open>users.doc("u1/posts/p1")\<close> is the document \<^verbatim>\<open>p1\<close> of the collection
  \<^verbatim>\<open>users/u1/posts\<close>.
\<close>

fun segments :: "string \<Rightarrow> string list" where
  "segments [] = [[]]"
| "segments (c # cs) =
     (if c = CHR ''/'' then [] # segments cs
      else (case segments cs of [] \<Rightarrow> [[c]] | seg # segs \<Rightarrow> (c # seg) # segs))"

text \<open>The path of the collection a query is built from (empty for an undefined name).\<close>

definition collectionPath :: "Query \<Rightarrow> string list" where
  "collectionPath q =
     (case base q of
        CollectionReference p \<Rightarrow> (case p of None \<Rightarrow> [] | Some n \<Rightarrow> segments n)
      | _ \<Rightarrow> [])"

text \<open>The path of the collection that holds the document a reference addresses.\<close>

fun parentPath :: "DocumentReference \<Rightarrow> string list" where
  "parentPath (Doc c i) = butlast (collectionPath c @ segments i)"

text \<open>The collection a client call addresses, by its path; a transaction addresses none.\<close>

fun collection_of :: "('s, 'e, 't, 'r) call \<Rightarrow> string list option" where
  "collection_of (Build q) = Some (collectionPath q)"
| "collection_of (BuildDoc r) = Some (parentPath r)"
| "collection_of (Set r d) = Some (parentPath r)"
| "collection_of (Update r d) = Some (parentPath r)"
| "collection_of (Delete r) = Some (parentPath r)"
| "collection_of (Get r) = Some (parentPath r)"
| "collection_of (QueryGet q) = Some (collectionPath q)"
| "collection_of (OnSnapshot q onNext onError) = Some (collectionPath q)"
| "collection_of (RunTransaction f) = None"

text \<open>
  \<open>natively execute\<close> is the callback that does what \<open>execute\<close> does and always returns
  a native promise: one that settles as the promise \<open>execute\<close> returned, or rejects with
  what \<open>execute\<close> threw.
\<close>

definition natively :: "('s, 'e, 't, 'r) callback \<Rightarrow> ('s, 'e, 't, 'r) callback" where
  "natively execute transaction s =
     (case execute transaction s of
        (Inl e, s') \<Rightarrow> (Inr (Native (Inl e)), s')
      | (Inr p, s') \<Rightarrow> (case p of Native x \<Rightarrow> (Inr (Native x), s') | Foreign x \<Rightarrow> (Inr (Native x), s')))"

text \<open>The query a client query method was called on to return the given query; a
  collection reference is returned by no query method.\<close>

fun receiver :: "Query \<Rightarrow> Query option" where
  "receiver (CollectionReference p) = None"
| "receiver (Where q f operator v) = Some q"
| "receiver (OrderBy q f d) = Some q"
| "receiver (Offset q n) = Some q"
| "receiver (Limit q n) = Some q"
| "receiver (StartAt q s) = Some q"
| "receiver (StartAfter q s) = Some q"
| "receiver (EndAt q s) = Some q"
| "receiver (EndBefore q s) = Some q"

section \<open>An in-memory client\<close>

text \<open>
  A small client to run the library on: the outside state is the list of stored
  documents, errors are strings. It rejects an empty document path, an undefined
  collection path and the update of a missing document, and it ignores filters and
  orderings when it answers a query. Its transaction runs the callback once; like the
  Firestore client, it rejects when the callback returns something that is not a native
  promise, and a failed transaction leaves the documents as they were.
\<close>

type_synonym store = "(DocumentReference \<times> DocumentData) list"

definition put :: "DocumentReference \<Rightarrow> DocumentData \<Rightarrow> store \<Rightarrow> store" where
  "put r d s = filter (\<lambda>entry. fst entry \<noteq> r) s @ [(r, d)]"

definition snapshot_of :: "DocumentReference \<times> DocumentData \<Rightarrow> DocumentSnapshot" where
  "snapshot_of entry =
     \<lparr>id_doc = (case fst entry of Doc c i \<Rightarrow> i), exists = True, data = Some (snd entry)\<rparr>"

fun answer :: "Query \<Rightarrow> store \<Rightarrow> DocumentSnapshot list" where
  "answer (CollectionReference p) s =
     map snapshot_of (filter (\<lambda>entry. case fst entry of Doc c i \<Rightarrow> c = CollectionReference p) s)"
| "answer (Limit q n) s = take (nat n) (answer q s)"
| "answer (Offset q n) s = drop (nat n) (answer q s)"
| "answer (Where q f operator v) s = answer q s"
| "answer (OrderBy q f d) s = answer q s"
| "answer (StartAt q x) s = answer q s"
| "answer (StartAfter q x) s = answer q s"
| "answer (EndAt q x) s = answer q s"
| "answer (EndBefore q x) s = answer q s"

definition memory_validate :: "(store, string, unit, nat) call \<Rightarrow> string option" where
  "memory_validate c =
     (case c of
        BuildDoc r \<Rightarrow> (case r of Doc q i \<Rightarrow> if i = [] then Some ''empty document path'' else None)
      | Build q \<Rightarrow>
          (case q of
             CollectionReference p \<Rightarrow>
               (case p of None \<Rightarrow> Some ''invalid collection path'' | Some n \<Rightarrow> None)
           | _ \<Rightarrow> None)
      | _ \<Rightarrow> None)"

definition memory_firestore :: "(store, string, unit, nat) Firestore" where
  "memory_firestore =
     \<lparr>validate = memory_validate,
      documentSet = (\<lambda>r d s. (Inr (), put r d s)),
      documentUpdate = (\<lambda>r d s.
        case map_of s r of
          None \<Rightarrow> (Inl ''not found'', s)
        | Some old \<Rightarrow> (Inr (), put r (old ++ d) s)),
      documentDelete = (\<lambda>r s. (Inr (), filter (\<lambda>entry. fst entry \<noteq> r) s)),
      documentGet = (\<lambda>r s.
        (Inr \<lparr>id_doc = (case r of Doc c i \<Rightarrow> i), exists = (map_of s r \<noteq> None), data = map_of s r\<rparr>, s)),
      queryGet = (\<lambda>q s. (Inr \<lparr>docs = answer q s\<rparr>, s)),
      queryOnSnapshot = (\<lambda>q onNext onError s. (Inr (\<lambda>s'. s'), onNext \<lparr>docs = answer q s\<rparr> s)),
      transact = (\<lambda>updateFunction s.
        case updateFunction () s of
          (Inl e, s') \<Rightarrow> (Inl e, s)
        | (Inr p, s') \<Rightarrow>
            (case p of
               Native x \<Rightarrow> (case x of Inl e \<Rightarrow> (Inl e, s) | Inr v \<Rightarrow> (Inr v, s'))
             | Foreign x \<Rightarrow> (Inl ''You must return a Promise in your transaction()-callback.'', s)))\<rparr>"

definition memory_crypto :: "store Crypto" where
  "memory_crypto = \<lparr>uuid = (\<lambda>s. (''uuid-'' @ replicate (length s) CHR ''x'', s))\<rparr>"

definition users :: Query where
  "users = CollectionReference (Some ''users'')"

definition alice :: DocumentData where
  "alice = [''name'' \<mapsto> FStr ''Alice'']"

definition tagged :: DocumentData where
  "tagged = [''documentId'' \<mapsto> FStr ''legacy-7'', ''name'' \<mapsto> FStr ''Bob'']"

definition start :: "store \<Rightarrow> (store, string, unit, nat) world" where
  "start s = \<lparr>ext = s, trace = []\<rparr>"

definition users_repo :: "(store, string, unit, nat) FirestoreRepositoryBase" where
  "users_repo = \<lparr>firestore = memory_firestore, collection = users\<rparr>"

text \<open>A transaction callback, as an \<^verbatim>\<open>async\<close> function: it stores a document and returns
  how many there were.\<close>

definition rename_bob :: "(store, string, unit, nat) callback" where
  "rename_bob transaction = async (\<lambda>s. (Inr (length s), put (Doc users ''u7'') alice s))"

text \<open>A transaction callback that returns a promise of another library, resolved with 7.\<close>

definition foreign_seven :: "(store, string, unit, nat) callback" where
  "foreign_seven transaction s = (Inr (Foreign (Inr 7)), s)"

text \<open>Two stored documents of the collection \<^verbatim>\<open>users\<close>.\<close>

definition stored :: store where
  "stored = [(Doc users ''u1'', alice), (Doc users ''u7'', tagged)]"

section \<open>The calls each operation makes\<close>

text \<open>
  Each operation is a sequence of client calls glued by \<open>andThen\<close>; the lemmas below
  compose the scripts of the parts into the script of the whole.
\<close>

lemma succeeded_append: "succeeded (cs @ ds) = succeeded cs @ succeeded ds"
  by (simp add: succeeded_def)

lemma conducts_okI:
  assumes "m st = (Inr x, st')" and "tr st' = tr st @ succeeded cs"
  shows "conducts tr m st cs"
  using assms by (simp add: conducts_def performed_def)

lemma conducts_failI:
  assumes "m st = (Inl e, st')" and "k < length cs"
    and "tr st' = tr st @ succeeded (take k cs) @ [(cs ! k, Some e)]"
  shows "conducts tr m st cs"
proof -
  have "performed tr m st = succeeded (take k cs) @ [(cs ! k, Some e)]"
    using assms by (simp add: performed_def)
  then show ?thesis
    using assms unfolding conducts_def by auto
qed

lemma conducts_okD:
  assumes "conducts tr m st cs" and "m st = (Inr x, st')"
  shows "tr st' = tr st @ succeeded cs"
  using assms by (simp add: conducts_def)

lemma conducts_failD:
  assumes "conducts tr m st cs" and "m st = (Inl e, st')"
  shows "\<exists>k < length cs. tr st' = tr st @ succeeded (take k cs) @ [(cs ! k, Some e)]"
  using assms by (auto simp: conducts_def)

lemma conducts_return: "conducts tr (return x) st []"
  by (rule conducts_okI [where x = x and st' = st]) (simp_all add: return_def succeeded_def)

lemma conducts_invoke: "conducts trace (invoke c respond) w [c]"
proof (cases "respond (ext w)")
  case (Pair r s')
  show ?thesis
  proof (cases r)
    case (Inl e)
    show ?thesis
      by (rule conducts_failI [where e = e and k = 0 and st' = "\<lparr>ext = s', trace = trace w @ [(c, Some e)]\<rparr>"])
        (simp_all add: invoke_def Pair Inl outcome_def succeeded_def)
  next
    case (Inr x)
    show ?thesis
      by (rule conducts_okI [where x = x and st' = "\<lparr>ext = s', trace = trace w @ [(c, None)]\<rparr>"])
        (simp_all add: invoke_def Pair Inr outcome_def succeeded_def)
  qed
qed

lemma conducts_andThen:
  assumes m: "conducts tr m st cs"
    and f: "\<And>x st'. m st = (Inr x, st') \<Longrightarrow> conducts tr (f x) st' ds"
  shows "conducts tr (andThen m f) st (cs @ ds)"
proof (cases "m st")
  case (Pair r st')
  show ?thesis
  proof (cases r)
    case (Inl e)
    with Pair have run: "andThen m f st = (Inl e, st')"
      by (simp add: andThen_def)
    from conducts_failD [OF m] Pair Inl obtain k where k: "k < length cs"
      "tr st' = tr st @ succeeded (take k cs) @ [(cs ! k, Some e)]"
      by blast
    show ?thesis
      by (rule conducts_failI [where e = e and st' = st' and k = k])
        (use k in \<open>simp_all add: run nth_append\<close>)
  next
    case (Inr x)
    with Pair have mx: "m st = (Inr x, st')" by simp
    then have run: "andThen m f st = f x st'"
      by (simp add: andThen_def)
    have grow: "tr st' = tr st @ succeeded cs"
      by (rule conducts_okD [OF m mx])
    have c2: "conducts tr (f x) st' ds"
      by (rule f [OF mx])
    show ?thesis
    proof (cases "f x st'")
      case inner: (Pair r2 st2)
      show ?thesis
      proof (cases r2)
        case (Inr y)
        have "tr st2 = tr st' @ succeeded ds"
          by (rule conducts_okD [OF c2]) (simp add: inner Inr)
        then show ?thesis
          by (intro conducts_okI [where x = y and st' = st2])
            (simp_all add: run inner Inr grow succeeded_append)
      next
        case (Inl e)
        have "\<exists>k < length ds. tr st2 = tr st' @ succeeded (take k ds) @ [(ds ! k, Some e)]"
          by (rule conducts_failD [OF c2]) (simp add: inner Inl)
        then obtain k where k: "k < length ds"
          "tr st2 = tr st' @ succeeded (take k ds) @ [(ds ! k, Some e)]"
          by blast
        show ?thesis
          by (rule conducts_failI [where e = e and st' = st2 and k = "length cs + k"])
            (use k in \<open>simp_all add: run inner Inl grow succeeded_append\<close>)
      qed
    qed
  qed
qed

lemma conducts_on_world:
  assumes "conducts trace m (snd st) cs"
  shows "conducts trace_qb (on_world m) st cs"
proof (cases "m (snd st)")
  case (Pair r w')
  show ?thesis
  proof (cases r)
    case (Inl e)
    from conducts_failD [OF assms] Pair Inl obtain k where k: "k < length cs"
      "trace w' = trace (snd st) @ succeeded (take k cs) @ [(cs ! k, Some e)]"
      by blast
    show ?thesis
      by (rule conducts_failI [where e = e and st' = "(fst st, w')" and k = k])
        (use k in \<open>simp_all add: on_world_def Pair Inl trace_qb_def\<close>)
  next
    case (Inr x)
    have "trace w' = trace (snd st) @ succeeded cs"
      by (rule conducts_okD [OF assms]) (simp add: Pair Inr)
    then show ?thesis
      by (intro conducts_okI [where x = x and st' = "(fst st, w')"])
        (simp_all add: on_world_def Pair Inr trace_qb_def)
  qed
qed

lemma conducts_get_this: "conducts trace_qb get_this st []"
  by (rule conducts_okI [where x = "fst st" and st' = st]) (simp_all add: get_this_def succeeded_def)

lemma conducts_set_query: "conducts trace_qb (set_query q) st []"
  by (rule conducts_okI [where x = "()" and st' = "((fst st)\<lparr>query := q\<rparr>, snd st)"])
    (simp_all add: set_query_def succeeded_def trace_qb_def)

lemma conducts_randomUUID: "conducts trace (randomUUID crypto) w []"
proof (cases "uuid crypto (ext w)")
  case (Pair u s')
  show ?thesis
    by (rule conducts_okI [where x = u and st' = "w\<lparr>ext := s'\<rparr>"])
      (simp_all add: randomUUID_def Pair succeeded_def)
qed

lemma return_andThen: "andThen (return x) f = f x"
  by (rule ext) (simp add: andThen_def return_def)

lemma andThen_return: "andThen m (\<lambda>x. return x) = m"
  by (rule ext) (simp add: andThen_def return_def split: prod.splits sum.splits)

subsection \<open>The client's methods\<close>

lemma build_run:
  "build cl q w =
     (case validate cl (Build q) of
        Some e \<Rightarrow> (Inl e, \<lparr>ext = ext w, trace = trace w @ [(Build q, Some e)]\<rparr>)
      | None \<Rightarrow> (Inr q, \<lparr>ext = ext w, trace = trace w @ [(Build q, None)]\<rparr>))"
  by (simp add: build_def invoke_def checked_def outcome_def split: option.splits)

lemma build_returns: "build cl q w = (Inr q', w') \<Longrightarrow> q' = q"
  by (simp add: build_run split: option.splits)

lemma doc_returns: "CollectionReference_doc cl c i w = (Inr r, w') \<Longrightarrow> r = Doc c i"
  by (simp add: CollectionReference_doc_def invoke_def checked_def split: option.splits)

lemma conducts_build: "conducts trace (build cl q) w [Build q]"
  unfolding build_def by (rule conducts_invoke)

lemma conducts_doc: "conducts trace (CollectionReference_doc cl c i) w [BuildDoc (Doc c i)]"
  unfolding CollectionReference_doc_def by (rule conducts_invoke)

lemma conducts_set: "conducts trace (DocumentReference_set cl r d) w [Set r d]"
  unfolding DocumentReference_set_def by (rule conducts_invoke)

lemma conducts_update: "conducts trace (DocumentReference_update cl r d) w [Update r d]"
  unfolding DocumentReference_update_def by (rule conducts_invoke)

lemma conducts_delete: "conducts trace (DocumentReference_delete cl r) w [Delete r]"
  unfolding DocumentReference_delete_def by (rule conducts_invoke)

lemma conducts_get: "conducts trace (DocumentReference_get cl r) w [Get r]"
  unfolding DocumentReference_get_def by (rule conducts_invoke)

lemma conducts_query_get: "conducts trace (Query_get cl q) w [QueryGet q]"
  unfolding Query_get_def by (rule conducts_invoke)

lemma conducts_query_onSnapshot:
  "conducts trace (Query_onSnapshot cl q onNext onError) w [OnSnapshot q onNext onError]"
  unfolding Query_onSnapshot_def by (rule conducts_invoke)

lemma conducts_Firestore_runTransaction:
  "conducts trace (Firestore_runTransaction cl f) w [RunTransaction f]"
  unfolding Firestore_runTransaction_def by (rule conducts_invoke)

subsection \<open>The repository\<close>

lemma conducts_then_return:
  assumes "conducts tr m st cs"
  shows "conducts tr (andThen m (\<lambda>x. return (g x))) st cs"
  using conducts_andThen [OF assms, where f = "\<lambda>x. return (g x)" and ds = "[]"]
  by (simp add: conducts_return)

lemma conducts_constructor:
  "conducts trace (FirestoreRepositoryBase_constructor supers key md fs entityType) w
     [Build (CollectionReference (getMetadata supers key entityType md))]"
proof -
  have "conducts trace
          (andThen (Firestore_collection fs (getMetadata supers key entityType md))
             (\<lambda>c. return \<lparr>firestore = fs, collection = c\<rparr>)) w
          [Build (CollectionReference (getMetadata supers key entityType md))]"
    by (rule conducts_then_return) (simp add: Firestore_collection_def conducts_build)
  then show ?thesis
    by (simp add: FirestoreRepositoryBase_constructor_def return_andThen)
qed

lemma conducts_doc_then:
  assumes "\<And>w'. conducts trace (f (Doc c i)) w' ds"
  shows "conducts trace (andThen (CollectionReference_doc cl c i) f) w (BuildDoc (Doc c i) # ds)"
proof -
  have "conducts trace (andThen (CollectionReference_doc cl c i) f) w ([BuildDoc (Doc c i)] @ ds)"
  proof (rule conducts_andThen [OF conducts_doc])
    fix x st' assume "CollectionReference_doc cl c i w = (Inr x, st')"
    then have "x = Doc c i" by (rule doc_returns)
    then show "conducts trace (f x) st' ds" using assms by simp
  qed
  then show ?thesis by simp
qed

lemma conducts_findOneById:
  "conducts trace (findOneById repo i) w
     [BuildDoc (Doc (collection repo) i), Get (Doc (collection repo) i)]"
  unfolding findOneById_def
  by (rule conducts_doc_then) (rule conducts_then_return, rule conducts_get)

lemma conducts_existsById:
  "conducts trace (existsById repo i) w
     [BuildDoc (Doc (collection repo) i), Get (Doc (collection repo) i)]"
  unfolding existsById_def
  by (rule conducts_doc_then) (rule conducts_then_return, rule conducts_get)

lemma conducts_deleteById:
  "conducts trace (deleteById repo i) w
     [BuildDoc (Doc (collection repo) i), Delete (Doc (collection repo) i)]"
  unfolding deleteById_def
  by (rule conducts_doc_then) (rule conducts_then_return, rule conducts_delete)

lemma conducts_write_then_get:
  assumes "conducts trace m w' [c]"
  shows "conducts trace
           (andThen m (\<lambda>_. andThen (DocumentReference_get cl r) (\<lambda>document. return (g document))))
           w' [c, Get r]"
  using conducts_andThen [OF assms, where ds = "[Get r]"
      and f = "\<lambda>_. andThen (DocumentReference_get cl r) (\<lambda>document. return (g document))"]
  by (simp add: conducts_then_return conducts_get)

lemma conducts_update_repo:
  "conducts trace (update repo i d) w
     [BuildDoc (Doc (collection repo) i), Update (Doc (collection repo) i) d,
      Get (Doc (collection repo) i)]"
  unfolding update_def
  by (rule conducts_doc_then) (rule conducts_write_then_get, rule conducts_update)

lemma conducts_create_with:
  "conducts trace
     (andThen (CollectionReference_doc (firestore repo) (collection repo) i) (\<lambda>reference.
      andThen (DocumentReference_set (firestore repo) reference d) (\<lambda>_.
      andThen (DocumentReference_get (firestore repo) reference) (\<lambda>document.
      return (toDocumentWithId document))))) w
     [BuildDoc (Doc (collection repo) i), Set (Doc (collection repo) i) d,
      Get (Doc (collection repo) i)]"
  by (rule conducts_doc_then) (rule conducts_write_then_get, rule conducts_set)

lemma randomUUID_returns:
  "randomUUID crypto w = (Inr x, w') \<Longrightarrow> x = fst (uuid crypto (ext w))"
  by (auto simp: randomUUID_def split: prod.splits)

lemma conducts_create:
  "conducts trace (create crypto repo d documentId) w
     [BuildDoc (Doc (collection repo)
        (case documentId of
           None \<Rightarrow> fst (uuid crypto (ext w))
         | Some i \<Rightarrow> if i \<noteq> [] then i else fst (uuid crypto (ext w)))),
      Set (Doc (collection repo)
        (case documentId of
           None \<Rightarrow> fst (uuid crypto (ext w))
         | Some i \<Rightarrow> if i \<noteq> [] then i else fst (uuid crypto (ext w)))) d,
      Get (Doc (collection repo)
        (case documentId of
           None \<Rightarrow> fst (uuid crypto (ext w))
         | Some i \<Rightarrow> if i \<noteq> [] then i else fst (uuid crypto (ext w))))]"
  (is "conducts trace _ w ?script")
proof -
  let ?rest = "\<lambda>i. andThen (CollectionReference_doc (firestore repo) (collection repo) i) (\<lambda>reference.
      andThen (DocumentReference_set (firestore repo) reference d) (\<lambda>_.
      andThen (DocumentReference_get (firestore repo) reference) (\<lambda>document.
      return (toDocumentWithId document))))"
  let ?u = "fst (uuid crypto (ext w))"
  have drawn: "conducts trace (andThen (randomUUID crypto) ?rest) w
      [BuildDoc (Doc (collection repo) ?u), Set (Doc (collection repo) ?u) d,
       Get (Doc (collection repo) ?u)]"
  proof -
    have "conducts trace (andThen (randomUUID crypto) ?rest) w
      ([] @ [BuildDoc (Doc (collection repo) ?u), Set (Doc (collection repo) ?u) d,
       Get (Doc (collection repo) ?u)])"
    proof (rule conducts_andThen [OF conducts_randomUUID])
      fix x st' assume "randomUUID crypto w = (Inr x, st')"
      then have "x = ?u" by (rule randomUUID_returns)
      then show "conducts trace (?rest x) st'
        [BuildDoc (Doc (collection repo) ?u), Set (Doc (collection repo) ?u) d,
         Get (Doc (collection repo) ?u)]"
        by (simp add: conducts_create_with)
    qed
    then show ?thesis by simp
  qed
  show ?thesis
  proof (cases documentId)
    case None
    then show ?thesis using drawn by (simp add: create_def)
  next
    case (Some i)
    show ?thesis
    proof (cases "i = []")
      case True
      then show ?thesis using drawn Some by (simp add: create_def)
    next
      case False
      then show ?thesis
        using conducts_create_with [of repo i d w] Some
        by (simp add: create_def return_andThen)
    qed
  qed
qed

lemma async_return_await:
  "(\<lambda>transaction. async
      (andThen (execute transaction) (\<lambda>p.
       andThen (awaiting p) (\<lambda>x.
       return x)))) = natively execute"
proof (rule ext, rule ext)
  fix transaction s
  show "async (andThen (execute transaction) (\<lambda>p. andThen (awaiting p) (\<lambda>x. return x))) s
      = natively execute transaction s"
    by (cases "execute transaction s")
      (auto simp: async_def andThen_def awaiting_def return_def natively_def
        split: sum.splits promise.splits)
qed

lemma runTransaction_run:
  "runTransaction repo execute = Firestore_runTransaction (firestore repo) (natively execute)"
  by (simp add: runTransaction_def async_return_await)

lemma natively_native:
  assumes "\<And>transaction s. \<exists>x. fst (execute transaction s) = Inr (Native x)"
  shows "natively execute = execute"
proof (rule ext, rule ext)
  fix transaction s
  from assms obtain x where "fst (execute transaction s) = Inr (Native x)"
    by blast
  then show "natively execute transaction s = execute transaction s"
    by (cases "execute transaction s") (simp add: natively_def)
qed

lemma conducts_runTransaction:
  "conducts trace (runTransaction repo execute) w [RunTransaction (natively execute)]"
  by (simp add: runTransaction_run conducts_Firestore_runTransaction)

subsection \<open>The query builder\<close>

lemma conducts_this_then:
  assumes "conducts trace_qb (f (fst st)) st cs"
  shows "conducts trace_qb (andThen get_this f) st cs"
proof -
  have "conducts trace_qb (andThen get_this f) st ([] @ cs)"
  proof (rule conducts_andThen [OF conducts_get_this])
    fix x st' assume "get_this st = (Inr x, st')"
    then have "x = fst st" "st' = st"
      by (auto simp: get_this_def)
    then show "conducts trace_qb (f x) st' cs"
      using assms by simp
  qed
  then show ?thesis by simp
qed

lemma conducts_assign:
  fixes st :: "FirestoreQueryBuilder \<times> ('a, 'b, 'c, 'd) world"
  assumes "conducts trace m (snd st) cs"
  shows "conducts trace_qb
           (andThen (on_world m) (\<lambda>q. andThen (set_query q) (\<lambda>_. get_this))) st cs"
proof -
  have "conducts trace_qb
           (andThen (on_world m) (\<lambda>q. andThen (set_query q) (\<lambda>_. get_this))) st (cs @ [])"
  proof (rule conducts_andThen [OF conducts_on_world [OF assms]])
    fix x and st' :: "FirestoreQueryBuilder \<times> ('a, 'b, 'c, 'd) world"
    have "conducts trace_qb (andThen (set_query x) (\<lambda>_. get_this)) st' ([] @ [])"
      by (rule conducts_andThen [OF conducts_set_query]) (rule conducts_get_this)
    then show "conducts trace_qb (andThen (set_query x) (\<lambda>_. get_this)) st' []"
      by simp
  qed
  then show ?thesis by simp
qed

lemma conducts_where:
  "conducts trace_qb (where_qb cl field operator v) st [Build (Where (query (fst st)) field operator v)]"
  unfolding where_qb_def Query_where_def
  by (rule conducts_this_then) (rule conducts_assign, rule conducts_build)

lemma conducts_orderBy:
  "conducts trace_qb (orderBy cl field direction) st
     [Build (OrderBy (query (fst st)) field (case direction of None \<Rightarrow> Asc | Some d \<Rightarrow> d))]"
  unfolding orderBy_def Query_orderBy_def
  by (rule conducts_this_then) (rule conducts_assign, rule conducts_build)

lemma conducts_offset:
  "conducts trace_qb (offset cl n) st [Build (Offset (query (fst st)) n)]"
  unfolding offset_def Query_offset_def
  by (rule conducts_this_then) (rule conducts_assign, rule conducts_build)

lemma conducts_limit:
  "conducts trace_qb (limit cl n) st [Build (Limit (query (fst st)) n)]"
  unfolding limit_def Query_limit_def
  by (rule conducts_this_then) (rule conducts_assign, rule conducts_build)

lemma conducts_startAt:
  "conducts trace_qb (startAt cl snapshot) st [Build (StartAt (query (fst st)) snapshot)]"
  unfolding startAt_def Query_startAt_def
  by (rule conducts_this_then) (rule conducts_assign, rule conducts_build)

lemma conducts_startAfter:
  "conducts trace_qb (startAfter cl snapshot) st [Build (StartAfter (query (fst st)) snapshot)]"
  unfolding startAfter_def Query_startAfter_def
  by (rule conducts_this_then) (rule conducts_assign, rule conducts_build)

lemma conducts_endAt:
  "conducts trace_qb (endAt cl snapshot) st [Build (EndAt (query (fst st)) snapshot)]"
  unfolding endAt_def Query_endAt_def
  by (rule conducts_this_then) (rule conducts_assign, rule conducts_build)

lemma conducts_endBefore:
  "conducts trace_qb (endBefore cl snapshot) st [Build (EndBefore (query (fst st)) snapshot)]"
  unfolding endBefore_def Query_endBefore_def
  by (rule conducts_this_then) (rule conducts_assign, rule conducts_build)

lemma clear_run:
  "clear st = (Inr ((fst st)\<lparr>query := reference (fst st)\<rparr>),
               ((fst st)\<lparr>query := reference (fst st)\<rparr>, snd st))"
  by (simp add: clear_def andThen_def get_this_def set_query_def)

lemma conducts_clear: "conducts trace_qb clear st []"
  by (rule conducts_okI [OF clear_run]) (simp add: trace_qb_def succeeded_def)

lemma conducts_onSnapshot:
  "conducts trace_qb (onSnapshot cl onNext onError) st [OnSnapshot (query (fst st)) onNext onError]"
  unfolding onSnapshot_def
  by (rule conducts_this_then) (rule conducts_on_world, rule conducts_query_onSnapshot)

lemma conducts_get_then_return:
  "conducts trace_qb (andThen (on_world (Query_get cl q)) (\<lambda>documents. return (g documents))) st
     [QueryGet q]"
  by (rule conducts_then_return) (rule conducts_on_world, rule conducts_query_get)

lemma conducts_getMany: "conducts trace_qb (getMany cl) st [QueryGet (query (fst st))]"
  unfolding getMany_def
  by (rule conducts_this_then) (rule conducts_get_then_return)

lemma conducts_getManyAndCount:
  "conducts trace_qb (getManyAndCount cl) st [QueryGet (query (fst st))]"
  unfolding getManyAndCount_def
  by (rule conducts_this_then) (rule conducts_get_then_return)

lemma conducts_count: "conducts trace_qb (count cl) st [QueryGet (query (fst st))]"
  unfolding count_def
  by (rule conducts_this_then) (rule conducts_get_then_return)

lemma conducts_getOne:
  "conducts trace_qb (getOne cl) st
     [Build (Limit (query (fst st)) 1), QueryGet (Limit (query (fst st)) 1)]"
  unfolding getOne_def
proof (rule conducts_this_then)
  let ?q = "Limit (query (fst st)) 1"
  let ?f = "\<lambda>limited. andThen (on_world (Query_get cl limited)) (\<lambda>documents.
     return (if \<not> empty_qs documents
             then Some (toDocumentWithId (docs documents ! 0))
             else None))"
  have "conducts trace_qb (andThen (on_world (Query_limit cl (query (fst st)) 1)) ?f) st
          ([Build ?q] @ [QueryGet ?q])"
  proof (rule conducts_andThen)
    show "conducts trace_qb (on_world (Query_limit cl (query (fst st)) 1)) st [Build ?q]"
      unfolding Query_limit_def by (rule conducts_on_world) (rule conducts_build)
  next
    fix x st' assume "on_world (Query_limit cl (query (fst st)) 1) st = (Inr x, st')"
    then have "x = ?q"
      by (auto simp: on_world_def Query_limit_def split: prod.splits dest: build_returns)
    then show "conducts trace_qb (?f x) st' [QueryGet ?q]"
      by (simp add: conducts_get_then_return)
  qed
  then show "conducts trace_qb (andThen (on_world (Query_limit cl (query (fst st)) 1)) ?f) st
          [Build ?q, QueryGet ?q]"
    by simp
qed

subsection \<open>The eight assigning methods\<close>

lemma assign_run:
  "andThen get_this (\<lambda>this.
     andThen (on_world (build cl (F (query this)))) (\<lambda>q.
     andThen (set_query q) (\<lambda>_. get_this))) st =
   (case validate cl (Build (F (query (fst st)))) of
      Some e \<Rightarrow>
        (Inl e, (fst st, \<lparr>ext = ext (snd st),
                          trace = trace (snd st) @ [(Build (F (query (fst st))), Some e)]\<rparr>))
    | None \<Rightarrow>
        (Inr ((fst st)\<lparr>query := F (query (fst st))\<rparr>),
         ((fst st)\<lparr>query := F (query (fst st))\<rparr>,
          \<lparr>ext = ext (snd st),
           trace = trace (snd st) @ [(Build (F (query (fst st))), None)]\<rparr>)))"
  by (simp add: andThen_def get_this_def on_world_def set_query_def build_run split: option.splits)

lemma assign_builder:
  assumes "m = andThen get_this (\<lambda>this.
     andThen (on_world (build cl (F (query this)))) (\<lambda>q.
     andThen (set_query q) (\<lambda>_. get_this)))"
  shows "chains_with m st (F (query (fst st)))"
    and "reference (fst (snd (m st))) = reference (fst st)"
    and "ext (snd (snd (m st))) = ext (snd st)"
proof -
  have c: "conducts trace_qb m st [Build (F (query (fst st)))]"
    unfolding assms
    by (rule conducts_this_then) (rule conducts_assign, rule conducts_build)
  show "chains_with m st (F (query (fst st)))"
    unfolding chains_with_def using c
    by (simp add: assms assign_run split: option.splits)
  show "reference (fst (snd (m st))) = reference (fst st)"
    by (simp add: assms assign_run split: option.splits)
  show "ext (snd (snd (m st))) = ext (snd st)"
    by (simp add: assms assign_run split: option.splits)
qed

lemma chain_frame:
  "reference (fst (snd (chain cl c st))) = reference (fst st)"
  "ext (snd (snd (chain cl c st))) = ext (snd st)"
proof -
  have "reference (fst (snd (chain cl c st))) = reference (fst st)
      \<and> ext (snd (snd (chain cl c st))) = ext (snd st)"
  proof (cases c)
    case (WhereCall field operator v)
    then show ?thesis
      using assign_builder(2,3) [where F = "\<lambda>q. Where q field operator v"
          and m = "where_qb cl field operator v" and cl = cl and st = st]
      by (simp add: where_qb_def Query_where_def)
  next
    case (OrderByCall field direction)
    then show ?thesis
      using assign_builder(2,3) [where F = "\<lambda>q. OrderBy q field (case direction of None \<Rightarrow> Asc | Some d \<Rightarrow> d)"
          and m = "orderBy cl field direction" and cl = cl and st = st]
      by (simp add: orderBy_def Query_orderBy_def)
  next
    case (OffsetCall n)
    then show ?thesis
      using assign_builder(2,3) [where F = "\<lambda>q. Offset q n" and m = "offset cl n" and cl = cl and st = st]
      by (simp add: offset_def Query_offset_def)
  next
    case (LimitCall n)
    then show ?thesis
      using assign_builder(2,3) [where F = "\<lambda>q. Limit q n" and m = "limit cl n" and cl = cl and st = st]
      by (simp add: limit_def Query_limit_def)
  next
    case (StartAtCall x)
    then show ?thesis
      using assign_builder(2,3) [where F = "\<lambda>q. StartAt q x" and m = "startAt cl x" and cl = cl and st = st]
      by (simp add: startAt_def Query_startAt_def)
  next
    case (StartAfterCall x)
    then show ?thesis
      using assign_builder(2,3) [where F = "\<lambda>q. StartAfter q x" and m = "startAfter cl x" and cl = cl and st = st]
      by (simp add: startAfter_def Query_startAfter_def)
  next
    case (EndAtCall x)
    then show ?thesis
      using assign_builder(2,3) [where F = "\<lambda>q. EndAt q x" and m = "endAt cl x" and cl = cl and st = st]
      by (simp add: endAt_def Query_endAt_def)
  next
    case (EndBeforeCall x)
    then show ?thesis
      using assign_builder(2,3) [where F = "\<lambda>q. EndBefore q x" and m = "endBefore cl x" and cl = cl and st = st]
      by (simp add: endBefore_def Query_endBefore_def)
  next
    case ClearCall
    then show ?thesis by (simp add: clear_run)
  qed
  then show "reference (fst (snd (chain cl c st))) = reference (fst st)"
    "ext (snd (snd (chain cl c st))) = ext (snd st)"
    by simp_all
qed

lemma chain_all_frame:
  "reference (fst (chain_all cl cs st)) = reference (fst st)"
  "ext (snd (chain_all cl cs st)) = ext (snd st)"
  by (induction cs arbitrary: st) (simp_all add: chain_frame)

lemma chain_all_fresh:
  "reference (fst (chain_all cl cs (FirestoreQueryBuilder_constructor c, w))) = c"
  by (simp add: chain_all_frame FirestoreQueryBuilder_constructor_def)

subsection \<open>Consequences of a script\<close>

lemma rejections_succeeded: "rejections (succeeded cs) = []"
  by (induction cs) (simp_all add: rejections_def succeeded_def)

lemma rejections_append: "rejections (xs @ ys) = rejections xs @ rejections ys"
  by (simp add: rejections_def)

lemma conducts_rejects:
  assumes "conducts tr m st cs"
  shows "(fst (m st) = Inl e) = (e \<in> set (rejections (performed tr m st)))"
proof (cases "fst (m st)")
  case (Inl e')
  with assms obtain k where "performed tr m st = succeeded (take k cs) @ [(cs ! k, Some e')]"
    by (auto simp: conducts_def)
  then have "rejections (performed tr m st) = [e']"
    by (simp add: rejections_append rejections_succeeded) (simp add: rejections_def)
  with Inl show ?thesis by auto
next
  case (Inr x)
  with assms have "performed tr m st = succeeded cs"
    by (simp add: conducts_def)
  with Inr show ?thesis
    by (simp add: rejections_succeeded)
qed

lemma conducts_calls:
  assumes "conducts tr m st cs" and "ev \<in> set (performed tr m st)"
  shows "fst ev \<in> set cs"
proof (cases "fst (m st)")
  case (Inl e)
  with assms obtain k where k: "k < length cs"
    "performed tr m st = succeeded (take k cs) @ [(cs ! k, Some e)]"
    by (auto simp: conducts_def)
  with assms(2) have "ev \<in> set (succeeded (take k cs)) \<or> ev = (cs ! k, Some e)"
    by auto
  then show ?thesis
  proof
    assume "ev \<in> set (succeeded (take k cs))"
    then have "fst ev \<in> set (take k cs)"
      by (auto simp: succeeded_def)
    then show ?thesis by (rule in_set_takeD)
  next
    assume "ev = (cs ! k, Some e)"
    with k show ?thesis by simp
  qed
next
  case (Inr x)
  with assms have "ev \<in> set (succeeded cs)"
    by (simp add: conducts_def)
  then show ?thesis by (auto simp: succeeded_def)
qed

subsection \<open>What the materialization calls return\<close>

lemma getMany_run:
  "getMany cl st =
     (case queryGet cl (query (fst st)) (ext (snd st)) of
        (r, s') \<Rightarrow>
          (case r of Inl e \<Rightarrow> Inl e | Inr documents \<Rightarrow> Inr (map toDocumentWithId (docs documents)),
           (fst st, \<lparr>ext = s', trace = trace (snd st) @ [(QueryGet (query (fst st)), outcome r)]\<rparr>)))"
  by (simp add: getMany_def andThen_def get_this_def on_world_def Query_get_def invoke_def return_def
      split: prod.splits sum.splits)

lemma getOne_this: "fst (snd (getOne cl st)) = fst st"
  by (simp add: getOne_def andThen_def get_this_def on_world_def Query_get_def Query_limit_def
      build_run invoke_def return_def split: prod.splits sum.splits option.splits)

section \<open>Reshaping a snapshot\<close>

lemma toDocumentWithId_fields:
  "data document = Some d \<Longrightarrow> d f = Some v \<Longrightarrow> toDocumentWithId document f = Some v"
  by (simp add: toDocumentWithId_def map_add_def)

lemma toDocumentWithId_attached:
  "data document = Some d \<Longrightarrow> d ''documentId'' = None \<Longrightarrow>
   toDocumentWithId document = d(''documentId'' \<mapsto> FStr (id_doc document))"
  by (rule ext) (simp add: toDocumentWithId_def map_add_def split: option.splits)

lemmas memory_defs =
  memory_firestore_def memory_validate_def memory_crypto_def users_repo_def users_def start_def
  put_def snapshot_of_def

lemmas run_defs =
  andThen_def return_def invoke_def checked_def outcome_def build_def
  CollectionReference_doc_def DocumentReference_get_def DocumentReference_set_def
  DocumentReference_update_def DocumentReference_delete_def Query_get_def
  Firestore_collection_def

lemmas builder_defs =
  where_qb_def orderBy_def offset_def limit_def startAt_def startAfter_def endAt_def endBefore_def
  clear_def getOne_def getMany_def getManyAndCount_def count_def onSnapshot_def
  get_this_def set_query_def on_world_def FirestoreQueryBuilder_constructor_def trace_qb_def
  Query_where_def Query_orderBy_def Query_offset_def Query_limit_def
  Query_startAt_def Query_startAfter_def Query_endAt_def Query_endBefore_def

lemma createQueryBuilder_run:
  "createQueryBuilder repo = \<lparr>reference = collection repo, query = collection repo\<rparr>"
  by (simp add: createQueryBuilder_def FirestoreQueryBuilder_constructor_def)

lemma constructor_run:
  "FirestoreRepositoryBase_constructor supers key md fs entityType w =
     (case validate fs (Build (CollectionReference (getMetadata supers key entityType md))) of
        Some e \<Rightarrow>
          (Inl e, \<lparr>ext = ext w,
                   trace = trace w @ [(Build (CollectionReference (getMetadata supers key entityType md)), Some e)]\<rparr>)
      | None \<Rightarrow>
          (Inr \<lparr>firestore = fs, collection = CollectionReference (getMetadata supers key entityType md)\<rparr>,
           \<lparr>ext = ext w,
            trace = trace w @ [(Build (CollectionReference (getMetadata supers key entityType md)), None)]\<rparr>))"
  by (simp add: FirestoreRepositoryBase_constructor_def return_andThen Firestore_collection_def
      build_run andThen_def return_def split: option.splits)

lemma getMetadata_FirestoreDocument:
  "getMetadata supers key C (FirestoreDocument key n C md) = Some n"
  by (simp add: getMetadata_def FirestoreDocument_def defineMetadata_def)

lemma getMetadata_inherited:
  assumes "md (C, key) = None" and "supers C = P # Ps" and "md (P, key) = Some n"
  shows "getMetadata supers key C md = Some n"
  using assms by (simp add: getMetadata_def)

lemma segments_plain: "CHR ''/'' \<notin> set i \<Longrightarrow> segments i = [i]"
  by (induction i) auto

lemma parentPath_plain:
  "CHR ''/'' \<notin> set i \<Longrightarrow> parentPath (Doc c i) = collectionPath c"
  by (simp add: segments_plain)

lemma touches_collection:
  assumes c: "conducts trace m w cs"
    and cs: "\<And>call. call \<in> set cs \<Longrightarrow> collection_of call = Some q"
  shows "\<forall>ev \<in> set (performed trace m w). collection_of (fst ev) = Some q"
  using conducts_calls [OF c] cs by blast

lemma getMany_result:
  "fst (getMany cl st) =
     (case fst (queryGet cl (query (fst st)) (ext (snd st))) of
        Inl e \<Rightarrow> Inl e
      | Inr documents \<Rightarrow> Inr (map toDocumentWithId (docs documents)))"
  by (simp add: getMany_run split: prod.splits)

text \<open>
  C1 says that every materialized document carries a \<^verbatim>\<open>documentId\<close> equal to the
  snapshot's id, next to the data fields. The documentation of \<^verbatim>\<open>DocumentWithId\<close> and of
  \<^verbatim>\<open>toDocumentWithId\<close> says the same (\<^verbatim>\<open>documentId\<close> is the unique identifier of the
  document). The code spreads the data after the identifier: for the stored document
  \<^verbatim>\<open>users/u7\<close> whose data has its own \<^verbatim>\<open>documentId\<close> field, \<open>findOneById\<close> returns
  \<^verbatim>\<open>legacy-7\<close> as \<^verbatim>\<open>documentId\<close>, not \<^verbatim>\<open>u7\<close>.
\<close>

theorem findOneById_documentId_not_id:
  "fst (findOneById users_repo ''u7'' (start [(Doc users ''u7'', tagged)]))
     = Inr (Some (toDocumentWithId \<lparr>id_doc = ''u7'', exists = True, data = Some tagged\<rparr>))
   \<and> toDocumentWithId \<lparr>id_doc = ''u7'', exists = True, data = Some tagged\<rparr> ''documentId''
       = Some (FStr ''legacy-7'')
   \<and> toDocumentWithId \<lparr>id_doc = ''u7'', exists = True, data = Some tagged\<rparr> ''documentId''
       \<noteq> Some (FStr ''u7'')"
  by (simp add: findOneById_def run_defs memory_defs toDocumentWithId_def tagged_def)

text \<open>
  C8: for every snapshot whose data has a field named \<^verbatim>\<open>documentId\<close>, the result of
  \<open>toDocumentWithId\<close> has the data's value under \<^verbatim>\<open>documentId\<close>: the spread of the data
  overwrites the attached identifier.
\<close>

theorem toDocumentWithId_data_overwrites:
  assumes "data document = Some d" and "d ''documentId'' = Some v"
  shows "toDocumentWithId document ''documentId'' = Some v"
  using assms by (simp add: toDocumentWithId_def map_add_def)

text \<open>At the snapshot of \<^verbatim>\<open>users/u7\<close>, the value is the data's, and it is not the id.\<close>

theorem toDocumentWithId_data_overwrites_witness:
  "data \<lparr>id_doc = ''u7'', exists = True, data = Some tagged\<rparr> = Some tagged
   \<and> tagged ''documentId'' = Some (FStr ''legacy-7'')
   \<and> toDocumentWithId \<lparr>id_doc = ''u7'', exists = True, data = Some tagged\<rparr> ''documentId''
       = Some (FStr ''legacy-7'')
   \<and> FStr ''legacy-7'' \<noteq> FStr (id_doc \<lparr>id_doc = ''u7'', exists = True, data = Some tagged\<rparr>)"
  using toDocumentWithId_data_overwrites
    [of "\<lparr>id_doc = ''u7'', exists = True, data = Some tagged\<rparr>" tagged "FStr ''legacy-7''"]
  by (simp add: tagged_def)

section \<open>Delegation to the client\<close>

text \<open>
  C2 as stated (each operation is exactly one invocation of one client method) fails:
  \<open>create\<close> with the identifier \<^verbatim>\<open>u1\<close> makes three client calls, \<^verbatim>\<open>doc\<close>, \<^verbatim>\<open>set\<close> and \<^verbatim>\<open>get\<close>.
\<close>

theorem create_makes_three_calls:
  "performed trace (create memory_crypto users_repo alice (Some ''u1'')) (start [])
     = [(BuildDoc (Doc users ''u1''), None),
        (Set (Doc users ''u1'') alice, None),
        (Get (Doc users ''u1''), None)]
   \<and> \<not> (\<exists>c. map fst (performed trace (create memory_crypto users_repo alice (Some ''u1'')) (start [])) = [c])"
  by (simp add: performed_def create_def run_defs memory_defs)

text \<open>
  C2, amended: every operation only makes client calls, in a fixed order and with the
  caller's arguments, and stops at the first call that throws or rejects. The constructor
  calls \<^verbatim>\<open>collection\<close>; \<open>create\<close> calls \<^verbatim>\<open>doc\<close>, \<^verbatim>\<open>set\<close>, \<^verbatim>\<open>get\<close> (on the caller's
  identifier, or on a drawn one when it is missing or empty); \<open>update\<close> calls \<^verbatim>\<open>doc\<close>,
  \<^verbatim>\<open>update\<close>, \<^verbatim>\<open>get\<close>; \<open>findOneById\<close> and \<open>existsById\<close> call \<^verbatim>\<open>doc\<close>, \<^verbatim>\<open>get\<close>;
  \<open>deleteById\<close> calls \<^verbatim>\<open>doc\<close>, \<^verbatim>\<open>delete\<close>; \<open>runTransaction\<close> calls \<^verbatim>\<open>runTransaction\<close>
  (with its own async function around the caller's callback);
  \<open>createQueryBuilder\<close> and \<open>clear\<close> call nothing; each of the eight other chaining
  methods calls the client query method of its name once; \<open>onSnapshot\<close> calls
  \<^verbatim>\<open>onSnapshot\<close>; \<open>getOne\<close> calls \<^verbatim>\<open>limit(1)\<close> and then \<^verbatim>\<open>get\<close>; \<open>getMany\<close>,
  \<open>getManyAndCount\<close> and \<open>count\<close> call \<^verbatim>\<open>get\<close>.
\<close>

theorem operations_delegate:
  "conducts trace (FirestoreRepositoryBase_constructor supers key md fs entityType) w
     [Build (CollectionReference (getMetadata supers key entityType md))]
   \<and> conducts trace (create crypto repo d documentId) w
     [BuildDoc (Doc (collection repo)
        (case documentId of
           None \<Rightarrow> fst (uuid crypto (ext w))
         | Some i \<Rightarrow> if i \<noteq> [] then i else fst (uuid crypto (ext w)))),
      Set (Doc (collection repo)
        (case documentId of
           None \<Rightarrow> fst (uuid crypto (ext w))
         | Some i \<Rightarrow> if i \<noteq> [] then i else fst (uuid crypto (ext w)))) d,
      Get (Doc (collection repo)
        (case documentId of
           None \<Rightarrow> fst (uuid crypto (ext w))
         | Some i \<Rightarrow> if i \<noteq> [] then i else fst (uuid crypto (ext w))))]
   \<and> conducts trace (update repo i d) w
     [BuildDoc (Doc (collection repo) i), Update (Doc (collection repo) i) d,
      Get (Doc (collection repo) i)]
   \<and> conducts trace (findOneById repo i) w
     [BuildDoc (Doc (collection repo) i), Get (Doc (collection repo) i)]
   \<and> conducts trace (deleteById repo i) w
     [BuildDoc (Doc (collection repo) i), Delete (Doc (collection repo) i)]
   \<and> conducts trace (existsById repo i) w
     [BuildDoc (Doc (collection repo) i), Get (Doc (collection repo) i)]
   \<and> conducts trace (runTransaction repo execute) w [RunTransaction (natively execute)]
   \<and> createQueryBuilder repo = \<lparr>reference = collection repo, query = collection repo\<rparr>
   \<and> conducts trace_qb (where_qb cl field operator v) st
     [Build (Where (query (fst st)) field operator v)]
   \<and> conducts trace_qb (orderBy cl field direction) st
     [Build (OrderBy (query (fst st)) field (case direction of None \<Rightarrow> Asc | Some dir \<Rightarrow> dir))]
   \<and> conducts trace_qb (offset cl n) st [Build (Offset (query (fst st)) n)]
   \<and> conducts trace_qb (limit cl n) st [Build (Limit (query (fst st)) n)]
   \<and> conducts trace_qb (startAt cl snapshot) st [Build (StartAt (query (fst st)) snapshot)]
   \<and> conducts trace_qb (startAfter cl snapshot) st [Build (StartAfter (query (fst st)) snapshot)]
   \<and> conducts trace_qb (endAt cl snapshot) st [Build (EndAt (query (fst st)) snapshot)]
   \<and> conducts trace_qb (endBefore cl snapshot) st [Build (EndBefore (query (fst st)) snapshot)]
   \<and> conducts trace_qb clear st []
   \<and> conducts trace_qb (onSnapshot cl onNext onError) st
     [OnSnapshot (query (fst st)) onNext onError]
   \<and> conducts trace_qb (getOne cl) st
     [Build (Limit (query (fst st)) 1), QueryGet (Limit (query (fst st)) 1)]
   \<and> conducts trace_qb (getMany cl) st [QueryGet (query (fst st))]
   \<and> conducts trace_qb (getManyAndCount cl) st [QueryGet (query (fst st))]
   \<and> conducts trace_qb (count cl) st [QueryGet (query (fst st))]"
  by (intro conjI createQueryBuilder_run conducts_constructor conducts_create conducts_update_repo conducts_findOneById
      conducts_deleteById conducts_existsById conducts_runTransaction conducts_where
      conducts_orderBy conducts_offset conducts_limit conducts_startAt conducts_startAfter
      conducts_endAt conducts_endBefore conducts_clear conducts_onSnapshot conducts_getOne
      conducts_getMany conducts_getManyAndCount conducts_count)

text \<open>An update of a stored document makes the three calls; an update of a missing one
  stops at the rejected \<^verbatim>\<open>update\<close>.\<close>

theorem operations_delegate_witness:
  "conducts trace (update users_repo ''u1'' alice) (start [(Doc users ''u1'', tagged)])
     [BuildDoc (Doc users ''u1''), Update (Doc users ''u1'') alice, Get (Doc users ''u1'')]
   \<and> performed trace (update users_repo ''u1'' alice) (start [(Doc users ''u1'', tagged)])
       = [(BuildDoc (Doc users ''u1''), None), (Update (Doc users ''u1'') alice, None),
          (Get (Doc users ''u1''), None)]
   \<and> performed trace (update users_repo ''u2'' alice) (start [(Doc users ''u1'', tagged)])
       = [(BuildDoc (Doc users ''u2''), None), (Update (Doc users ''u2'') alice, Some ''not found'')]"
proof -
  have "conducts trace (update users_repo ''u1'' alice) (start [(Doc users ''u1'', tagged)])
     [BuildDoc (Doc (collection users_repo) ''u1''), Update (Doc (collection users_repo) ''u1'') alice,
      Get (Doc (collection users_repo) ''u1'')]"
    by (rule operations_delegate [where repo = users_repo and i = "''u1''" and d = alice
        and w = "start [(Doc users ''u1'', tagged)]", THEN conjunct2, THEN conjunct2, THEN conjunct1])
  then show ?thesis
    by (simp add: performed_def update_def run_defs memory_defs)
qed

section \<open>The query builder\<close>

text \<open>
  C3 as stated (each of the nine chaining calls applies the corresponding client query
  method, and each of the four materialization calls executes the accumulated query) fails
  at a builder over \<^verbatim>\<open>users\<close> after \<^verbatim>\<open>limit(5)\<close>: \<open>clear\<close> makes no client call and leaves
  the collection reference, which no client query method returns; and \<open>getOne\<close> executes
  the accumulated query with \<^verbatim>\<open>limit(1)\<close> applied, not the accumulated query.
\<close>

theorem clear_and_getOne_differ:
  "fst (snd (limit memory_firestore 5 (FirestoreQueryBuilder_constructor users, start [])))
     = \<lparr>reference = users, query = Limit users 5\<rparr>
   \<and> performed trace_qb clear (\<lparr>reference = users, query = Limit users 5\<rparr>, start []) = []
   \<and> query (fst (snd (clear (\<lparr>reference = users, query = Limit users 5\<rparr>, start [])))) = users
   \<and> receiver users \<noteq> Some (Limit users 5)
   \<and> map fst (performed trace_qb (getOne memory_firestore)
                 (\<lparr>reference = users, query = Limit users 5\<rparr>, start []))
       = [Build (Limit (Limit users 5) 1), QueryGet (Limit (Limit users 5) 1)]
   \<and> QueryGet (Limit users 5)
       \<notin> set (map fst (performed trace_qb (getOne memory_firestore)
                 (\<lparr>reference = users, query = Limit users 5\<rparr>, start [])))"
  by (simp add: performed_def builder_defs run_defs memory_defs)

text \<open>
  C3, amended: of the nine chaining calls, eight (\<^verbatim>\<open>where\<close>, \<^verbatim>\<open>orderBy\<close>, \<^verbatim>\<open>offset\<close>,
  \<^verbatim>\<open>limit\<close>, \<^verbatim>\<open>startAt\<close>, \<^verbatim>\<open>startAfter\<close>, \<^verbatim>\<open>endAt\<close>, \<^verbatim>\<open>endBefore\<close>) call the client
  query method of the same name once on the accumulated query, with the caller's arguments
  (\<^verbatim>\<open>orderBy\<close> with \<^verbatim>\<open>asc\<close> when no direction is given), keep the returned query and return
  the builder; \<open>clear\<close> calls nothing, resets the query to the collection reference and
  returns the builder. Of the four materialization calls, \<open>getMany\<close>, \<open>getManyAndCount\<close>
  and \<open>count\<close> execute the accumulated query; \<open>getOne\<close> executes the accumulated query
  limited to one document.
\<close>

theorem builder_chains_and_materializes:
  "chains_with (where_qb cl field operator v) st (Where (query (fst st)) field operator v)
   \<and> chains_with (orderBy cl field direction) st
       (OrderBy (query (fst st)) field (case direction of None \<Rightarrow> Asc | Some d \<Rightarrow> d))
   \<and> chains_with (offset cl n) st (Offset (query (fst st)) n)
   \<and> chains_with (limit cl n) st (Limit (query (fst st)) n)
   \<and> chains_with (startAt cl snapshot) st (StartAt (query (fst st)) snapshot)
   \<and> chains_with (startAfter cl snapshot) st (StartAfter (query (fst st)) snapshot)
   \<and> chains_with (endAt cl snapshot) st (EndAt (query (fst st)) snapshot)
   \<and> chains_with (endBefore cl snapshot) st (EndBefore (query (fst st)) snapshot)
   \<and> clear st = (Inr ((fst st)\<lparr>query := reference (fst st)\<rparr>),
                 ((fst st)\<lparr>query := reference (fst st)\<rparr>, snd st))
   \<and> conducts trace_qb (getOne cl) st
       [Build (Limit (query (fst st)) 1), QueryGet (Limit (query (fst st)) 1)]
   \<and> conducts trace_qb (getMany cl) st [QueryGet (query (fst st))]
   \<and> conducts trace_qb (getManyAndCount cl) st [QueryGet (query (fst st))]
   \<and> conducts trace_qb (count cl) st [QueryGet (query (fst st))]"
proof (intro conjI)
  show "chains_with (where_qb cl field operator v) st (Where (query (fst st)) field operator v)"
    by (rule assign_builder(1) [where F = "\<lambda>q. Where q field operator v"])
      (simp add: where_qb_def Query_where_def)
  show "chains_with (orderBy cl field direction) st
       (OrderBy (query (fst st)) field (case direction of None \<Rightarrow> Asc | Some d \<Rightarrow> d))"
    by (rule assign_builder(1)
        [where F = "\<lambda>q. OrderBy q field (case direction of None \<Rightarrow> Asc | Some d \<Rightarrow> d)"])
      (simp add: orderBy_def Query_orderBy_def)
  show "chains_with (offset cl n) st (Offset (query (fst st)) n)"
    by (rule assign_builder(1) [where F = "\<lambda>q. Offset q n"])
      (simp add: offset_def Query_offset_def)
  show "chains_with (limit cl n) st (Limit (query (fst st)) n)"
    by (rule assign_builder(1) [where F = "\<lambda>q. Limit q n"])
      (simp add: limit_def Query_limit_def)
  show "chains_with (startAt cl snapshot) st (StartAt (query (fst st)) snapshot)"
    by (rule assign_builder(1) [where F = "\<lambda>q. StartAt q snapshot"])
      (simp add: startAt_def Query_startAt_def)
  show "chains_with (startAfter cl snapshot) st (StartAfter (query (fst st)) snapshot)"
    by (rule assign_builder(1) [where F = "\<lambda>q. StartAfter q snapshot"])
      (simp add: startAfter_def Query_startAfter_def)
  show "chains_with (endAt cl snapshot) st (EndAt (query (fst st)) snapshot)"
    by (rule assign_builder(1) [where F = "\<lambda>q. EndAt q snapshot"])
      (simp add: endAt_def Query_endAt_def)
  show "chains_with (endBefore cl snapshot) st (EndBefore (query (fst st)) snapshot)"
    by (rule assign_builder(1) [where F = "\<lambda>q. EndBefore q snapshot"])
      (simp add: endBefore_def Query_endBefore_def)
qed (rule clear_run conducts_getOne conducts_getMany conducts_getManyAndCount conducts_count)+

text \<open>A \<^verbatim>\<open>where\<close> on a fresh builder over \<^verbatim>\<open>users\<close>.\<close>

theorem builder_chains_and_materializes_witness:
  "chains_with (where_qb memory_firestore ''name'' Eq (FStr ''Alice''))
     (FirestoreQueryBuilder_constructor users, start []) (Where users ''name'' Eq (FStr ''Alice''))
   \<and> where_qb memory_firestore ''name'' Eq (FStr ''Alice'')
        (FirestoreQueryBuilder_constructor users, start [])
      = (Inr \<lparr>reference = users, query = Where users ''name'' Eq (FStr ''Alice'')\<rparr>,
         (\<lparr>reference = users, query = Where users ''name'' Eq (FStr ''Alice'')\<rparr>,
          \<lparr>ext = [], trace = [(Build (Where users ''name'' Eq (FStr ''Alice'')), None)]\<rparr>))"
proof -
  have "chains_with (where_qb memory_firestore ''name'' Eq (FStr ''Alice''))
     (FirestoreQueryBuilder_constructor users, start [])
     (Where (query (fst (FirestoreQueryBuilder_constructor users, start []))) ''name'' Eq (FStr ''Alice''))"
    by (rule builder_chains_and_materializes [where cl = memory_firestore
          and st = "(FirestoreQueryBuilder_constructor users, start [])", THEN conjunct1])
  then show ?thesis
    by (simp add: builder_defs run_defs memory_defs)
qed

section \<open>The decorator and the repository\<close>

text \<open>
  C4: for every class \<open>C\<close> and every string \<open>n\<close>, after \<open>FirestoreDocument n\<close> has decorated
  \<open>C\<close> the metadata of \<open>C\<close> under the key is \<open>n\<close>; the constructor of the repository for
  \<open>C\<close> makes the one client call \<^verbatim>\<open>collection(n)\<close>, and the repository it returns holds
  the client's collection named \<open>n\<close>. (The constructor throws only what that call throws.)
\<close>

theorem decorator_round_trip:
  "getMetadata supers key C (FirestoreDocument key n C md) = Some n
   \<and> conducts trace (FirestoreRepositoryBase_constructor supers key (FirestoreDocument key n C md) fs C) w
       [Build (CollectionReference (Some n))]
   \<and> (case fst (FirestoreRepositoryBase_constructor supers key (FirestoreDocument key n C md) fs C w) of
         Inr repo \<Rightarrow> collection repo = CollectionReference (Some n) \<and> firestore repo = fs
       | Inl e \<Rightarrow> validate fs (Build (CollectionReference (Some n))) = Some e)"
proof (intro conjI)
  show "getMetadata supers key C (FirestoreDocument key n C md) = Some n"
    by (rule getMetadata_FirestoreDocument)
  show "conducts trace (FirestoreRepositoryBase_constructor supers key (FirestoreDocument key n C md) fs C) w
       [Build (CollectionReference (Some n))]"
    using conducts_constructor [of supers key "FirestoreDocument key n C md" fs C w]
    by (simp add: getMetadata_FirestoreDocument)
  show "case fst (FirestoreRepositoryBase_constructor supers key (FirestoreDocument key n C md) fs C w) of
         Inr repo \<Rightarrow> collection repo = CollectionReference (Some n) \<and> firestore repo = fs
       | Inl e \<Rightarrow> validate fs (Build (CollectionReference (Some n))) = Some e"
    by (simp add: constructor_run getMetadata_FirestoreDocument split: option.splits)
qed

text \<open>A class decorated with \<^verbatim>\<open>users\<close>, on the in-memory client.\<close>

theorem decorator_round_trip_witness:
  "getMetadata (\<lambda>c. []) ''firestore:collection'' ''User''
      (FirestoreDocument ''firestore:collection'' ''users'' ''User'' Map.empty) = Some ''users''
   \<and> FirestoreRepositoryBase_constructor (\<lambda>c. []) ''firestore:collection''
        (FirestoreDocument ''firestore:collection'' ''users'' ''User'' Map.empty) memory_firestore ''User'' (start [])
      = (Inr users_repo, \<lparr>ext = [], trace = [(Build users, None)]\<rparr>)"
  using decorator_round_trip [of "\<lambda>c. []" "''firestore:collection''" "''User''" "''users''" Map.empty
      memory_firestore "start []"]
  by (simp add: constructor_run memory_defs)

text \<open>
  C5 as stated (no operation touches any other collection) fails: the identifier goes
  unchecked into \<^verbatim>\<open>doc\<close>, which reads it as a path. On the repository of \<^verbatim>\<open>users\<close>,
  \<open>deleteById\<close> with \<^verbatim>\<open>u1/posts/p1\<close> deletes a document of the collection
  \<^verbatim>\<open>users/u1/posts\<close>.
\<close>

theorem deleteById_in_a_subcollection:
  "performed trace (deleteById users_repo ''u1/posts/p1'') (start [])
     = [(BuildDoc (Doc users ''u1/posts/p1''), None), (Delete (Doc users ''u1/posts/p1''), None)]
   \<and> map (\<lambda>ev. collection_of (fst ev))
        (performed trace (deleteById users_repo ''u1/posts/p1'') (start []))
     = [Some [''users'', ''u1'', ''posts''], Some [''users'', ''u1'', ''posts'']]
   \<and> collectionPath (collection users_repo) = [''users'']
   \<and> [''users'', ''u1'', ''posts''] \<noteq> collectionPath (collection users_repo)"
  by (simp add: performed_def deleteById_def run_defs memory_defs collectionPath_def)

text \<open>
  C5, amended: a repository built by the constructor holds the collection named by the
  metadata of its entity type. Each of its five operations \<open>create\<close>, \<open>update\<close>,
  \<open>findOneById\<close>, \<open>deleteById\<close> and \<open>existsById\<close> calls \<^verbatim>\<open>doc\<close> on that collection with the
  identifier it was given (\<open>create\<close>: or drew) and then works on the document reference it
  got, and on nothing else. When the identifier has no \<^verbatim>\<open>/\<close>, every one of these calls
  addresses that collection.
\<close>

theorem crud_on_one_collection:
  assumes built: "FirestoreRepositoryBase_constructor supers key md fs entityType w0 = (Inr repo, w1)"
    and chosen: "u = (case documentId of
                        None \<Rightarrow> fst (uuid crypto (ext w))
                      | Some j \<Rightarrow> if j \<noteq> [] then j else fst (uuid crypto (ext w)))"
    and plain_u: "CHR ''/'' \<notin> set u"
    and plain_i: "CHR ''/'' \<notin> set i"
  shows "collection repo = CollectionReference (getMetadata supers key entityType md)
   \<and> conducts trace (create crypto repo d documentId) w
       [BuildDoc (Doc (collection repo) u), Set (Doc (collection repo) u) d,
        Get (Doc (collection repo) u)]
   \<and> (\<forall>ev \<in> set (performed trace (create crypto repo d documentId) w).
         collection_of (fst ev) = Some (collectionPath (collection repo)))
   \<and> conducts trace (update repo i d) w
       [BuildDoc (Doc (collection repo) i), Update (Doc (collection repo) i) d,
        Get (Doc (collection repo) i)]
   \<and> (\<forall>ev \<in> set (performed trace (update repo i d) w).
         collection_of (fst ev) = Some (collectionPath (collection repo)))
   \<and> conducts trace (findOneById repo i) w
       [BuildDoc (Doc (collection repo) i), Get (Doc (collection repo) i)]
   \<and> (\<forall>ev \<in> set (performed trace (findOneById repo i) w).
         collection_of (fst ev) = Some (collectionPath (collection repo)))
   \<and> conducts trace (deleteById repo i) w
       [BuildDoc (Doc (collection repo) i), Delete (Doc (collection repo) i)]
   \<and> (\<forall>ev \<in> set (performed trace (deleteById repo i) w).
         collection_of (fst ev) = Some (collectionPath (collection repo)))
   \<and> conducts trace (existsById repo i) w
       [BuildDoc (Doc (collection repo) i), Get (Doc (collection repo) i)]
   \<and> (\<forall>ev \<in> set (performed trace (existsById repo i) w).
         collection_of (fst ev) = Some (collectionPath (collection repo)))"
proof -
  have bound: "collection repo = CollectionReference (getMetadata supers key entityType md)"
    using built by (auto simp: constructor_run split: option.splits)
  have u: "parentPath (Doc (collection repo) u) = collectionPath (collection repo)"
    by (rule parentPath_plain [OF plain_u])
  have i: "parentPath (Doc (collection repo) i) = collectionPath (collection repo)"
    by (rule parentPath_plain [OF plain_i])
  have created: "conducts trace (create crypto repo d documentId) w
       [BuildDoc (Doc (collection repo) u), Set (Doc (collection repo) u) d,
        Get (Doc (collection repo) u)]"
    unfolding chosen by (rule conducts_create)
  show ?thesis
  proof (intro conjI)
    show "collection repo = CollectionReference (getMetadata supers key entityType md)"
      by (rule bound)
    show "conducts trace (create crypto repo d documentId) w
       [BuildDoc (Doc (collection repo) u), Set (Doc (collection repo) u) d,
        Get (Doc (collection repo) u)]"
      by (rule created)
    show "\<forall>ev \<in> set (performed trace (create crypto repo d documentId) w).
         collection_of (fst ev) = Some (collectionPath (collection repo))"
      by (rule touches_collection [OF created]) (use u in auto)
    show "conducts trace (update repo i d) w
       [BuildDoc (Doc (collection repo) i), Update (Doc (collection repo) i) d,
        Get (Doc (collection repo) i)]"
      by (rule conducts_update_repo)
    show "\<forall>ev \<in> set (performed trace (update repo i d) w).
         collection_of (fst ev) = Some (collectionPath (collection repo))"
      by (rule touches_collection [OF conducts_update_repo]) (use i in auto)
    show "conducts trace (findOneById repo i) w
       [BuildDoc (Doc (collection repo) i), Get (Doc (collection repo) i)]"
      by (rule conducts_findOneById)
    show "\<forall>ev \<in> set (performed trace (findOneById repo i) w).
         collection_of (fst ev) = Some (collectionPath (collection repo))"
      by (rule touches_collection [OF conducts_findOneById]) (use i in auto)
    show "conducts trace (deleteById repo i) w
       [BuildDoc (Doc (collection repo) i), Delete (Doc (collection repo) i)]"
      by (rule conducts_deleteById)
    show "\<forall>ev \<in> set (performed trace (deleteById repo i) w).
         collection_of (fst ev) = Some (collectionPath (collection repo))"
      by (rule touches_collection [OF conducts_deleteById]) (use i in auto)
    show "conducts trace (existsById repo i) w
       [BuildDoc (Doc (collection repo) i), Get (Doc (collection repo) i)]"
      by (rule conducts_existsById)
    show "\<forall>ev \<in> set (performed trace (existsById repo i) w).
         collection_of (fst ev) = Some (collectionPath (collection repo))"
      by (rule touches_collection [OF conducts_existsById]) (use i in auto)
  qed
qed

text \<open>The repository of \<^verbatim>\<open>users\<close>, with one stored document \<^verbatim>\<open>u7\<close>: the calls of the five
  operations and the collection each call addresses.\<close>

theorem crud_on_one_collection_witness:
  "FirestoreRepositoryBase_constructor (\<lambda>c. []) ''firestore:collection''
        [(''User'', ''firestore:collection'') \<mapsto> ''users''] memory_firestore ''User'' (start [])
      = (Inr users_repo, \<lparr>ext = [], trace = [(Build users, None)]\<rparr>)
   \<and> collection users_repo = users
   \<and> collectionPath users = [''users'']
   \<and> performed trace (create memory_crypto users_repo alice None) (start [(Doc users ''u7'', tagged)])
      = [(BuildDoc (Doc users ''uuid-x''), None), (Set (Doc users ''uuid-x'') alice, None),
         (Get (Doc users ''uuid-x''), None)]
   \<and> map (\<lambda>ev. collection_of (fst ev))
        (performed trace (create memory_crypto users_repo alice None) (start [(Doc users ''u7'', tagged)]))
      = [Some [''users''], Some [''users''], Some [''users'']]
   \<and> performed trace (update users_repo ''u7'' alice) (start [(Doc users ''u7'', tagged)])
      = [(BuildDoc (Doc users ''u7''), None), (Update (Doc users ''u7'') alice, None),
         (Get (Doc users ''u7''), None)]
   \<and> map (\<lambda>ev. collection_of (fst ev))
        (performed trace (update users_repo ''u7'' alice) (start [(Doc users ''u7'', tagged)]))
      = [Some [''users''], Some [''users''], Some [''users'']]
   \<and> performed trace (findOneById users_repo ''u7'') (start [(Doc users ''u7'', tagged)])
      = [(BuildDoc (Doc users ''u7''), None), (Get (Doc users ''u7''), None)]
   \<and> map (\<lambda>ev. collection_of (fst ev))
        (performed trace (findOneById users_repo ''u7'') (start [(Doc users ''u7'', tagged)]))
      = [Some [''users''], Some [''users'']]
   \<and> performed trace (deleteById users_repo ''u7'') (start [(Doc users ''u7'', tagged)])
      = [(BuildDoc (Doc users ''u7''), None), (Delete (Doc users ''u7''), None)]
   \<and> map (\<lambda>ev. collection_of (fst ev))
        (performed trace (deleteById users_repo ''u7'') (start [(Doc users ''u7'', tagged)]))
      = [Some [''users''], Some [''users'']]
   \<and> performed trace (existsById users_repo ''u7'') (start [(Doc users ''u7'', tagged)])
      = [(BuildDoc (Doc users ''u7''), None), (Get (Doc users ''u7''), None)]
   \<and> map (\<lambda>ev. collection_of (fst ev))
        (performed trace (existsById users_repo ''u7'') (start [(Doc users ''u7'', tagged)]))
      = [Some [''users''], Some [''users'']]"
proof -
  have built: "FirestoreRepositoryBase_constructor (\<lambda>c. []) ''firestore:collection''
        [(''User'', ''firestore:collection'') \<mapsto> ''users''] memory_firestore ''User'' (start [])
      = (Inr users_repo, \<lparr>ext = [], trace = [(Build users, None)]\<rparr>)"
    by (simp add: constructor_run memory_defs getMetadata_def)
  have chosen: "''uuid-x'' = (case None of
                        None \<Rightarrow> fst (uuid memory_crypto (ext (start [(Doc users ''u7'', tagged)])))
                      | Some j \<Rightarrow> if j \<noteq> [] then j
                          else fst (uuid memory_crypto (ext (start [(Doc users ''u7'', tagged)]))))"
    by (simp add: memory_defs)
  have plain_u: "CHR ''/'' \<notin> set ''uuid-x''" by simp
  have plain_i: "CHR ''/'' \<notin> set ''u7''" by simp
  note all = crud_on_one_collection [OF built chosen plain_u plain_i, where d = alice]
  have path: "collectionPath users = [''users'']"
    by (simp add: collectionPath_def users_def)
  have c: "performed trace (create memory_crypto users_repo alice None) (start [(Doc users ''u7'', tagged)])
      = [(BuildDoc (Doc users ''uuid-x''), None), (Set (Doc users ''uuid-x'') alice, None),
         (Get (Doc users ''uuid-x''), None)]"
    by (simp add: performed_def create_def randomUUID_def run_defs memory_defs)
  have up: "performed trace (update users_repo ''u7'' alice) (start [(Doc users ''u7'', tagged)])
      = [(BuildDoc (Doc users ''u7''), None), (Update (Doc users ''u7'') alice, None),
         (Get (Doc users ''u7''), None)]"
    by (simp add: performed_def update_def run_defs memory_defs)
  have f: "performed trace (findOneById users_repo ''u7'') (start [(Doc users ''u7'', tagged)])
      = [(BuildDoc (Doc users ''u7''), None), (Get (Doc users ''u7''), None)]"
    by (simp add: performed_def findOneById_def run_defs memory_defs)
  have del: "performed trace (deleteById users_repo ''u7'') (start [(Doc users ''u7'', tagged)])
      = [(BuildDoc (Doc users ''u7''), None), (Delete (Doc users ''u7''), None)]"
    by (simp add: performed_def deleteById_def run_defs memory_defs)
  have ex: "performed trace (existsById users_repo ''u7'') (start [(Doc users ''u7'', tagged)])
      = [(BuildDoc (Doc users ''u7''), None), (Get (Doc users ''u7''), None)]"
    by (simp add: performed_def existsById_def run_defs memory_defs)
  have same: "collection users_repo = users"
    by (simp add: users_repo_def)
  show ?thesis
    using all unfolding c up f del ex same path
    by (simp add: built)
qed

section \<open>Errors\<close>

text \<open>
  C6: an operation throws \<open>e\<close> exactly when one of the client calls it made threw or
  rejected with \<open>e\<close>. So it fails only when a client call fails, with the client's error,
  and a failed client call is never retried or swallowed.
\<close>

theorem errors_are_the_clients:
  "(fst (FirestoreRepositoryBase_constructor supers key md fs entityType w) = Inl e)
      = (e \<in> set (rejections (performed trace (FirestoreRepositoryBase_constructor supers key md fs entityType) w)))
   \<and> (fst (create crypto repo d documentId w) = Inl e)
      = (e \<in> set (rejections (performed trace (create crypto repo d documentId) w)))
   \<and> (fst (update repo i d w) = Inl e)
      = (e \<in> set (rejections (performed trace (update repo i d) w)))
   \<and> (fst (findOneById repo i w) = Inl e)
      = (e \<in> set (rejections (performed trace (findOneById repo i) w)))
   \<and> (fst (deleteById repo i w) = Inl e)
      = (e \<in> set (rejections (performed trace (deleteById repo i) w)))
   \<and> (fst (existsById repo i w) = Inl e)
      = (e \<in> set (rejections (performed trace (existsById repo i) w)))
   \<and> (fst (runTransaction repo execute w) = Inl e)
      = (e \<in> set (rejections (performed trace (runTransaction repo execute) w)))
   \<and> (fst (where_qb cl field operator v st) = Inl e)
      = (e \<in> set (rejections (performed trace_qb (where_qb cl field operator v) st)))
   \<and> (fst (orderBy cl field direction st) = Inl e)
      = (e \<in> set (rejections (performed trace_qb (orderBy cl field direction) st)))
   \<and> (fst (offset cl n st) = Inl e)
      = (e \<in> set (rejections (performed trace_qb (offset cl n) st)))
   \<and> (fst (limit cl n st) = Inl e)
      = (e \<in> set (rejections (performed trace_qb (limit cl n) st)))
   \<and> (fst (startAt cl snapshot st) = Inl e)
      = (e \<in> set (rejections (performed trace_qb (startAt cl snapshot) st)))
   \<and> (fst (startAfter cl snapshot st) = Inl e)
      = (e \<in> set (rejections (performed trace_qb (startAfter cl snapshot) st)))
   \<and> (fst (endAt cl snapshot st) = Inl e)
      = (e \<in> set (rejections (performed trace_qb (endAt cl snapshot) st)))
   \<and> (fst (endBefore cl snapshot st) = Inl e)
      = (e \<in> set (rejections (performed trace_qb (endBefore cl snapshot) st)))
   \<and> (fst (clear st) = Inl e)
      = (e \<in> set (rejections (performed trace_qb clear st)))
   \<and> (fst (onSnapshot cl onNext onError st) = Inl e)
      = (e \<in> set (rejections (performed trace_qb (onSnapshot cl onNext onError) st)))
   \<and> (fst (getOne cl st) = Inl e)
      = (e \<in> set (rejections (performed trace_qb (getOne cl) st)))
   \<and> (fst (getMany cl st) = Inl e)
      = (e \<in> set (rejections (performed trace_qb (getMany cl) st)))
   \<and> (fst (getManyAndCount cl st) = Inl e)
      = (e \<in> set (rejections (performed trace_qb (getManyAndCount cl) st)))
   \<and> (fst (count cl st) = Inl e)
      = (e \<in> set (rejections (performed trace_qb (count cl) st)))"
  by (intro conjI
      conducts_rejects [OF conducts_constructor] conducts_rejects [OF conducts_create]
      conducts_rejects [OF conducts_update_repo] conducts_rejects [OF conducts_findOneById]
      conducts_rejects [OF conducts_deleteById] conducts_rejects [OF conducts_existsById]
      conducts_rejects [OF conducts_runTransaction] conducts_rejects [OF conducts_where]
      conducts_rejects [OF conducts_orderBy] conducts_rejects [OF conducts_offset]
      conducts_rejects [OF conducts_limit] conducts_rejects [OF conducts_startAt]
      conducts_rejects [OF conducts_startAfter] conducts_rejects [OF conducts_endAt]
      conducts_rejects [OF conducts_endBefore] conducts_rejects [OF conducts_clear]
      conducts_rejects [OF conducts_onSnapshot] conducts_rejects [OF conducts_getOne]
      conducts_rejects [OF conducts_getMany] conducts_rejects [OF conducts_getManyAndCount]
      conducts_rejects [OF conducts_count])

text \<open>The update of a missing document is rejected by the client, and that is what the
  caller gets; looking a missing document up rejects nothing.\<close>

theorem errors_are_the_clients_witness:
  "fst (update users_repo ''u2'' alice (start [])) = Inl ''not found''
   \<and> ''not found'' \<in> set (rejections (performed trace (update users_repo ''u2'' alice) (start [])))
   \<and> performed trace (update users_repo ''u2'' alice) (start [])
       = [(BuildDoc (Doc users ''u2''), None), (Update (Doc users ''u2'') alice, Some ''not found'')]
   \<and> fst (findOneById users_repo ''u2'' (start [])) = Inr None
   \<and> rejections (performed trace (findOneById users_repo ''u2'') (start [])) = []"
proof -
  have rejected: "fst (update users_repo ''u2'' alice (start [])) = Inl ''not found''"
    by (simp add: update_def run_defs memory_defs)
  have "''not found'' \<in> set (rejections (performed trace (update users_repo ''u2'' alice) (start [])))"
    using rejected
      errors_are_the_clients [where repo = users_repo and i = "''u2''" and d = alice
        and w = "start []" and e = "''not found''", THEN conjunct2, THEN conjunct2, THEN conjunct1]
    by simp
  then show ?thesis
    by (simp add: performed_def rejections_def update_def findOneById_def run_defs memory_defs)
qed

section \<open>Transactions\<close>

text \<open>
  C7 as stated (for every callback, \<open>runTransaction\<close> is observationally equal to the
  client's \<^verbatim>\<open>runTransaction\<close> called with the callback) fails for a callback that returns
  a promise which is not a native one: the library hands the client its own async function,
  whose promise is native, and the transaction resolves with 7; called with the callback
  itself, the client rejects.
\<close>

theorem runTransaction_differs_on_a_foreign_promise:
  "fst (runTransaction users_repo foreign_seven (start [])) = Inr 7
   \<and> fst (Firestore_runTransaction memory_firestore foreign_seven (start []))
       = Inl ''You must return a Promise in your transaction()-callback.''
   \<and> runTransaction users_repo foreign_seven (start [])
       \<noteq> Firestore_runTransaction (firestore users_repo) foreign_seven (start [])"
proof -
  have lib: "fst (runTransaction users_repo foreign_seven (start [])) = Inr 7"
    by (simp add: runTransaction_run Firestore_runTransaction_def invoke_def natively_def
        foreign_seven_def memory_defs)
  have direct: "fst (Firestore_runTransaction memory_firestore foreign_seven (start []))
       = Inl ''You must return a Promise in your transaction()-callback.''"
    by (simp add: Firestore_runTransaction_def invoke_def foreign_seven_def memory_defs)
  have "fst (runTransaction users_repo foreign_seven (start []))
      \<noteq> fst (Firestore_runTransaction (firestore users_repo) foreign_seven (start []))"
    unfolding lib using direct by (simp add: users_repo_def)
  then have "runTransaction users_repo foreign_seven (start [])
       \<noteq> Firestore_runTransaction (firestore users_repo) foreign_seven (start [])"
    by auto
  with lib direct show ?thesis by simp
qed

text \<open>
  C7, amended: for every callback, \<open>runTransaction\<close> makes the one client call
  \<^verbatim>\<open>runTransaction\<close>, handing over an async function that does what the callback does and
  returns a native promise settling as the callback's promise settles (or rejecting with
  what the callback throws); the result and the outside state are the client's, unchanged.
  For every callback that returns a native promise, as every async function does, that
  function behaves as the callback, and \<open>runTransaction\<close> is the client's
  \<^verbatim>\<open>runTransaction\<close> called with the callback.
\<close>

theorem runTransaction_is_the_clients:
  "runTransaction repo execute = Firestore_runTransaction (firestore repo) (natively execute)
   \<and> fst (runTransaction repo execute w) = fst (transact (firestore repo) (natively execute) (ext w))
   \<and> ext (snd (runTransaction repo execute w))
       = snd (transact (firestore repo) (natively execute) (ext w))
   \<and> performed trace (runTransaction repo execute) w
       = [(RunTransaction (natively execute),
           outcome (fst (transact (firestore repo) (natively execute) (ext w))))]
   \<and> ((\<forall>transaction s. \<exists>x. fst (execute transaction s) = Inr (Native x))
       \<longrightarrow> natively execute = execute
         \<and> runTransaction repo execute = Firestore_runTransaction (firestore repo) execute)"
proof (intro conjI impI)
  show run: "runTransaction repo execute
      = Firestore_runTransaction (firestore repo) (natively execute)"
    by (rule runTransaction_run)
  show "fst (runTransaction repo execute w)
      = fst (transact (firestore repo) (natively execute) (ext w))"
    by (simp add: run Firestore_runTransaction_def invoke_def split: prod.splits)
  show "ext (snd (runTransaction repo execute w))
      = snd (transact (firestore repo) (natively execute) (ext w))"
    by (simp add: run Firestore_runTransaction_def invoke_def split: prod.splits)
  show "performed trace (runTransaction repo execute) w
       = [(RunTransaction (natively execute),
           outcome (fst (transact (firestore repo) (natively execute) (ext w))))]"
    by (simp add: run Firestore_runTransaction_def invoke_def performed_def split: prod.splits)
next
  assume native: "\<forall>transaction s. \<exists>x. fst (execute transaction s) = Inr (Native x)"
  then show same: "natively execute = execute"
    by (intro natively_native) blast
  show "runTransaction repo execute = Firestore_runTransaction (firestore repo) execute"
    by (simp add: runTransaction_run same)
qed

text \<open>An async callback on the in-memory client: the library's call is the client's call
  with the callback, and the transaction resolves with what the callback resolves with.\<close>

theorem runTransaction_is_the_clients_witness:
  "runTransaction users_repo rename_bob
     = Firestore_runTransaction (firestore users_repo) rename_bob
   \<and> fst (rename_bob () [(Doc users ''u7'', tagged)]) = Inr (Native (Inr 1))
   \<and> fst (runTransaction users_repo rename_bob (start [(Doc users ''u7'', tagged)])) = Inr 1
   \<and> ext (snd (runTransaction users_repo rename_bob (start [(Doc users ''u7'', tagged)])))
       = [(Doc users ''u7'', alice)]"
proof -
  have native: "\<forall>transaction s. \<exists>x. fst (rename_bob transaction s) = Inr (Native x)"
    by (simp add: rename_bob_def async_def)
  note all = runTransaction_is_the_clients
    [of users_repo rename_bob "start [(Doc users ''u7'', tagged)]"]
  from all native have same: "natively rename_bob = rename_bob"
    and direct: "runTransaction users_repo rename_bob
       = Firestore_runTransaction (firestore users_repo) rename_bob"
    by blast+
  from all have result: "fst (runTransaction users_repo rename_bob (start [(Doc users ''u7'', tagged)]))
      = fst (transact (firestore users_repo) (natively rename_bob)
               (ext (start [(Doc users ''u7'', tagged)])))"
    by blast
  from all have state: "ext (snd (runTransaction users_repo rename_bob (start [(Doc users ''u7'', tagged)])))
      = snd (transact (firestore users_repo) (natively rename_bob)
               (ext (start [(Doc users ''u7'', tagged)])))"
    by blast
  show ?thesis
    unfolding result state same
    using direct by (simp add: rename_bob_def async_def memory_defs)
qed

section \<open>Frame properties of the builder\<close>

text \<open>
  C9: for a builder after any sequence of chaining calls, \<open>getOne\<close> leaves the builder
  as it was; its limit is applied to a query of its own. A \<open>getMany\<close> after it executes
  the accumulated query, as it does on the untouched builder, and so returns what it
  would have returned without \<open>getOne\<close> whenever the outside state is the same.
\<close>

theorem getOne_leaves_the_builder:
  "fst (snd (getOne cl (chain_all cl cs (FirestoreQueryBuilder_constructor c, w))))
     = fst (chain_all cl cs (FirestoreQueryBuilder_constructor c, w))
   \<and> conducts trace_qb (getOne cl) (chain_all cl cs (FirestoreQueryBuilder_constructor c, w))
       [Build (Limit (query (fst (chain_all cl cs (FirestoreQueryBuilder_constructor c, w)))) 1),
        QueryGet (Limit (query (fst (chain_all cl cs (FirestoreQueryBuilder_constructor c, w)))) 1)]
   \<and> conducts trace_qb (getMany cl)
       (snd (getOne cl (chain_all cl cs (FirestoreQueryBuilder_constructor c, w))))
       [QueryGet (query (fst (chain_all cl cs (FirestoreQueryBuilder_constructor c, w))))]
   \<and> getMany cl (snd (getOne cl (chain_all cl cs (FirestoreQueryBuilder_constructor c, w))))
       = getMany cl (fst (chain_all cl cs (FirestoreQueryBuilder_constructor c, w)),
                     snd (snd (getOne cl (chain_all cl cs (FirestoreQueryBuilder_constructor c, w)))))
   \<and> (ext (snd (snd (getOne cl (chain_all cl cs (FirestoreQueryBuilder_constructor c, w)))))
         = ext (snd (chain_all cl cs (FirestoreQueryBuilder_constructor c, w)))
       \<longrightarrow> fst (getMany cl (snd (getOne cl (chain_all cl cs (FirestoreQueryBuilder_constructor c, w)))))
           = fst (getMany cl (chain_all cl cs (FirestoreQueryBuilder_constructor c, w))))"
proof -
  define st where "st = chain_all cl cs (FirestoreQueryBuilder_constructor c, w)"
  have same: "fst (snd (getOne cl st)) = fst st"
    by (rule getOne_this)
  have after: "conducts trace_qb (getMany cl) (snd (getOne cl st)) [QueryGet (query (fst st))]"
    using conducts_getMany [of cl "snd (getOne cl st)"] by (simp add: same)
  have untouched: "getMany cl (snd (getOne cl st)) = getMany cl (fst st, snd (snd (getOne cl st)))"
    using same by (metis prod.collapse)
  have results: "ext (snd (snd (getOne cl st))) = ext (snd st)
      \<longrightarrow> fst (getMany cl (snd (getOne cl st))) = fst (getMany cl st)"
    by (simp add: getMany_result same)
  show ?thesis
    unfolding st_def [symmetric]
    using same conducts_getOne [of cl st] after untouched results by blast
qed

text \<open>With two stored users, \<open>getOne\<close> returns the first and the following \<open>getMany\<close>
  returns both.\<close>

theorem getOne_leaves_the_builder_witness:
  "chain_all memory_firestore [OffsetCall 0] (FirestoreQueryBuilder_constructor users, start stored)
     = (\<lparr>reference = users, query = Offset users 0\<rparr>,
        \<lparr>ext = stored, trace = [(Build (Offset users 0), None)]\<rparr>)
   \<and> fst (getOne memory_firestore
        (chain_all memory_firestore [OffsetCall 0] (FirestoreQueryBuilder_constructor users, start stored)))
     = Inr (Some (toDocumentWithId \<lparr>id_doc = ''u1'', exists = True, data = Some alice\<rparr>))
   \<and> fst (snd (getOne memory_firestore
        (chain_all memory_firestore [OffsetCall 0] (FirestoreQueryBuilder_constructor users, start stored))))
     = \<lparr>reference = users, query = Offset users 0\<rparr>
   \<and> fst (getMany memory_firestore (snd (getOne memory_firestore
        (chain_all memory_firestore [OffsetCall 0] (FirestoreQueryBuilder_constructor users, start stored)))))
     = Inr [toDocumentWithId \<lparr>id_doc = ''u1'', exists = True, data = Some alice\<rparr>,
            toDocumentWithId \<lparr>id_doc = ''u7'', exists = True, data = Some tagged\<rparr>]"
proof -
  let ?st = "chain_all memory_firestore [OffsetCall 0] (FirestoreQueryBuilder_constructor users, start stored)"
  have st: "?st = (\<lparr>reference = users, query = Offset users 0\<rparr>,
        \<lparr>ext = stored, trace = [(Build (Offset users 0), None)]\<rparr>)"
    by (simp add: builder_defs run_defs memory_defs)
  have one: "getOne memory_firestore (\<lparr>reference = users, query = Offset users 0\<rparr>,
        \<lparr>ext = stored, trace = [(Build (Offset users 0), None)]\<rparr>)
     = (Inr (Some (toDocumentWithId \<lparr>id_doc = ''u1'', exists = True, data = Some alice\<rparr>)),
        (\<lparr>reference = users, query = Offset users 0\<rparr>,
         \<lparr>ext = stored, trace = [(Build (Offset users 0), None),
            (Build (Limit (Offset users 0) 1), None), (QueryGet (Limit (Offset users 0) 1), None)]\<rparr>))"
    by (simp add: builder_defs run_defs memory_defs stored_def empty_qs_def)
  have many: "fst (getMany memory_firestore (\<lparr>reference = users, query = Offset users 0\<rparr>,
        \<lparr>ext = stored, trace = [(Build (Offset users 0), None)]\<rparr>))
     = Inr [toDocumentWithId \<lparr>id_doc = ''u1'', exists = True, data = Some alice\<rparr>,
            toDocumentWithId \<lparr>id_doc = ''u7'', exists = True, data = Some tagged\<rparr>]"
    by (simp add: builder_defs run_defs memory_defs stored_def)
  have "ext (snd (snd (getOne memory_firestore ?st))) = ext (snd ?st)"
    unfolding st one by simp
  with getOne_leaves_the_builder [of memory_firestore "[OffsetCall 0]" users "start stored"]
  have "fst (getMany memory_firestore (snd (getOne memory_firestore ?st)))
      = fst (getMany memory_firestore ?st)"
    by blast
  then show ?thesis
    unfolding st one many by simp
qed

text \<open>
  C10: for a builder constructed over a collection, after any sequence of chaining calls
  \<open>clear\<close> leaves exactly the freshly constructed builder over that collection (and the
  chaining calls have not changed the outside state), so every later chaining or
  materialization call does what it does on a fresh builder.
\<close>

theorem clear_resets:
  "clear (chain_all cl cs (FirestoreQueryBuilder_constructor c, w))
     = (Inr (FirestoreQueryBuilder_constructor c),
        (FirestoreQueryBuilder_constructor c, snd (chain_all cl cs (FirestoreQueryBuilder_constructor c, w))))
   \<and> ext (snd (chain_all cl cs (FirestoreQueryBuilder_constructor c, w))) = ext w
   \<and> chain_all cl ds (snd (clear (chain_all cl cs (FirestoreQueryBuilder_constructor c, w))))
       = chain_all cl ds
           (FirestoreQueryBuilder_constructor c, snd (chain_all cl cs (FirestoreQueryBuilder_constructor c, w)))
   \<and> getOne cl (snd (clear (chain_all cl cs (FirestoreQueryBuilder_constructor c, w))))
       = getOne cl
           (FirestoreQueryBuilder_constructor c, snd (chain_all cl cs (FirestoreQueryBuilder_constructor c, w)))
   \<and> getMany cl (snd (clear (chain_all cl cs (FirestoreQueryBuilder_constructor c, w))))
       = getMany cl
           (FirestoreQueryBuilder_constructor c, snd (chain_all cl cs (FirestoreQueryBuilder_constructor c, w)))
   \<and> getManyAndCount cl (snd (clear (chain_all cl cs (FirestoreQueryBuilder_constructor c, w))))
       = getManyAndCount cl
           (FirestoreQueryBuilder_constructor c, snd (chain_all cl cs (FirestoreQueryBuilder_constructor c, w)))
   \<and> count cl (snd (clear (chain_all cl cs (FirestoreQueryBuilder_constructor c, w))))
       = count cl
           (FirestoreQueryBuilder_constructor c, snd (chain_all cl cs (FirestoreQueryBuilder_constructor c, w)))"
proof -
  define st where "st = chain_all cl cs (FirestoreQueryBuilder_constructor c, w)"
  have "reference (fst st) = c"
    unfolding st_def by (rule chain_all_fresh)
  then have reset: "(fst st)\<lparr>query := reference (fst st)\<rparr> = FirestoreQueryBuilder_constructor c"
    by (simp add: FirestoreQueryBuilder_constructor_def)
  have cleared: "clear st = (Inr (FirestoreQueryBuilder_constructor c),
        (FirestoreQueryBuilder_constructor c, snd st))"
    by (simp add: clear_run reset)
  have outside: "ext (snd st) = ext w"
    unfolding st_def by (simp add: chain_all_frame)
  show ?thesis
    unfolding st_def [symmetric]
    by (simp add: cleared outside)
qed

text \<open>After \<^verbatim>\<open>limit(5)\<close> and a \<^verbatim>\<open>where\<close>, \<open>clear\<close> returns the builder over \<^verbatim>\<open>users\<close>.\<close>

theorem clear_resets_witness:
  "chain_all memory_firestore [LimitCall 5, WhereCall ''name'' Eq (FStr ''Alice'')]
       (FirestoreQueryBuilder_constructor users, start stored)
     = (\<lparr>reference = users, query = Where (Limit users 5) ''name'' Eq (FStr ''Alice'')\<rparr>,
        \<lparr>ext = stored,
         trace = [(Build (Limit users 5), None),
                  (Build (Where (Limit users 5) ''name'' Eq (FStr ''Alice'')), None)]\<rparr>)
   \<and> fst (clear (chain_all memory_firestore [LimitCall 5, WhereCall ''name'' Eq (FStr ''Alice'')]
       (FirestoreQueryBuilder_constructor users, start stored)))
     = Inr \<lparr>reference = users, query = users\<rparr>"
  using clear_resets [of memory_firestore "[LimitCall 5, WhereCall ''name'' Eq (FStr ''Alice'')]"
      users "start stored"]
  by (simp add: builder_defs run_defs memory_defs)

end
